theory Spec2Isabelle
  imports Main
begin

section \<open>The State lattice (Aspen/State.hpp)\<close>

text \<open>
  Modelled from the spec: \<^verbatim>\<open>Aspen/State.hpp\<close> is included by every source file but is
  not among them. The specification describes a commit report as a value that tracks the
  facets evaluation, continuation and completion independently, plus the marker
  \<open>empty\<close>; the C++ type is an enumeration used as a set of flags. A state is therefore a
  record of the four flags, and the named states are the rows of the specification's
  table.
\<close>

record State =
  evaluation_bit :: bool
  continuation_bit :: bool
  complete_bit :: bool
  empty_bit :: bool

definition EMPTY :: State where
  "EMPTY = \<lparr>evaluation_bit = False, continuation_bit = False, complete_bit = False,
    empty_bit = True\<rparr>"

definition NONE :: State where
  "NONE = \<lparr>evaluation_bit = False, continuation_bit = False, complete_bit = False,
    empty_bit = False\<rparr>"

definition EVALUATED :: State where
  "EVALUATED = \<lparr>evaluation_bit = True, continuation_bit = False, complete_bit = False,
    empty_bit = False\<rparr>"

definition CONTINUE :: State where
  "CONTINUE = \<lparr>evaluation_bit = False, continuation_bit = True, complete_bit = False,
    empty_bit = False\<rparr>"

definition CONTINUE_EVALUATED :: State where
  "CONTINUE_EVALUATED = \<lparr>evaluation_bit = True, continuation_bit = True,
    complete_bit = False, empty_bit = False\<rparr>"

definition COMPLETE :: State where
  "COMPLETE = \<lparr>evaluation_bit = False, continuation_bit = False, complete_bit = True,
    empty_bit = False\<rparr>"

definition COMPLETE_EMPTY :: State where
  "COMPLETE_EMPTY = \<lparr>evaluation_bit = False, continuation_bit = False,
    complete_bit = True, empty_bit = True\<rparr>"

definition COMPLETE_EVALUATED :: State where
  "COMPLETE_EVALUATED = \<lparr>evaluation_bit = True, continuation_bit = False,
    complete_bit = True, empty_bit = False\<rparr>"

text \<open>
  Modelled from the spec: the helpers \<open>is_complete\<close>, \<open>has_evaluation\<close>,
  \<open>has_continuation\<close> and \<open>is_empty\<close> of the absent \<^verbatim>\<open>State.hpp\<close> read one facet
  each.
\<close>

definition is_complete :: "State \<Rightarrow> bool" where
  "is_complete s = complete_bit s"

definition has_evaluation :: "State \<Rightarrow> bool" where
  "has_evaluation s = evaluation_bit s"

definition has_continuation :: "State \<Rightarrow> bool" where
  "has_continuation s = continuation_bit s"

definition is_empty :: "State \<Rightarrow> bool" where
  "is_empty s = empty_bit s"

text \<open>
  Modelled from the spec: \<open>combine\<close> of the absent \<^verbatim>\<open>State.hpp\<close>. The specification:
  ``\<open>combine(a, b)\<close> ORs the eval/cont/complete bits and keeps \<open>empty\<close> only if both were
  empty.''
\<close>

definition combine :: "State \<Rightarrow> State \<Rightarrow> State" where
  "combine a b =
    \<lparr>evaluation_bit = (evaluation_bit a \<or> evaluation_bit b),
     continuation_bit = (continuation_bit a \<or> continuation_bit b),
     complete_bit = (complete_bit a \<or> complete_bit b),
     empty_bit = (empty_bit a \<and> empty_bit b)\<rparr>"


section \<open>Maybe (Aspen/Maybe.hpp)\<close>

text \<open>
  Modelled from the spec: \<^verbatim>\<open>Aspen/Maybe.hpp\<close> is absent. A \<open>Maybe<T>\<close> is a value or a
  deferred error (a \<^verbatim>\<open>std::exception_ptr\<close>); \<open>get\<close> returns the value or re-raises
  the error; \<open>try_call\<close> runs a computation and captures what it raises. An exception is
  identified by a string, \<open>Maybe<void>\<close> is \<open>unit Maybe\<close>, and a computation that may
  raise is a value of \<open>exception_ptr + 'a\<close> (\<open>Inl\<close> the exception raised).
\<close>

type_synonym exception_ptr = string

datatype 'a Maybe = Value 'a | Exception exception_ptr

fun get :: "'a Maybe \<Rightarrow> exception_ptr + 'a" where
  "get (Value v) = Inr v"
| "get (Exception e) = Inl e"

fun try_call :: "exception_ptr + 'a \<Rightarrow> 'a Maybe" where
  "try_call (Inr v) = Value v"
| "try_call (Inl e) = Exception e"


section \<open>FunctionEvaluation (Aspen/Lift.hpp)\<close>

text \<open>
  What a call can do: return, raise an exception, or fail an \<^verbatim>\<open>assert\<close>, which ends
  the program.
\<close>

datatype 'r outcome = Returned 'r | Threw exception_ptr | Aborted

record 'a FunctionEvaluation =
  fe_value :: "'a Maybe option"
  fe_state :: State

text \<open>The constructors of \<open>FunctionEvaluation<T>\<close>, in the order of the source.\<close>

definition FunctionEvaluation_default :: "'a FunctionEvaluation" where
  "FunctionEvaluation_default = \<lparr>fe_value = None, fe_state = NONE\<rparr>"

definition FunctionEvaluation_Maybe :: "'a Maybe \<Rightarrow> 'a FunctionEvaluation" where
  "FunctionEvaluation_Maybe v = \<lparr>fe_value = Some v, fe_state = EVALUATED\<rparr>"

definition FunctionEvaluation_Type :: "'a \<Rightarrow> 'a FunctionEvaluation" where
  "FunctionEvaluation_Type v = FunctionEvaluation_Maybe (Value v)"

definition FunctionEvaluation_optional_Maybe ::
  "'a Maybe option \<Rightarrow> 'a FunctionEvaluation" where
  "FunctionEvaluation_optional_Maybe v =
    (if v \<noteq> None then \<lparr>fe_value = v, fe_state = EVALUATED\<rparr>
     else \<lparr>fe_value = v, fe_state = NONE\<rparr>)"

definition FunctionEvaluation_optional :: "'a option \<Rightarrow> 'a FunctionEvaluation" where
  "FunctionEvaluation_optional v = FunctionEvaluation_optional_Maybe (map_option Value v)"

definition FunctionEvaluation_Maybe_State ::
  "'a Maybe \<Rightarrow> State \<Rightarrow> 'a FunctionEvaluation" where
  "FunctionEvaluation_Maybe_State v state =
    (if is_complete state then \<lparr>fe_value = Some v, fe_state = COMPLETE_EVALUATED\<rparr>
     else if has_continuation state then
       \<lparr>fe_value = Some v, fe_state = CONTINUE_EVALUATED\<rparr>
     else \<lparr>fe_value = Some v, fe_state = EVALUATED\<rparr>)"

definition FunctionEvaluation_Type_State ::
  "'a \<Rightarrow> State \<Rightarrow> 'a FunctionEvaluation" where
  "FunctionEvaluation_Type_State v state = FunctionEvaluation_Maybe_State (Value v) state"

definition FunctionEvaluation_optional_Maybe_State ::
  "'a Maybe option \<Rightarrow> State \<Rightarrow> 'a FunctionEvaluation" where
  "FunctionEvaluation_optional_Maybe_State v state =
    (if v \<noteq> None then
       (if is_complete state then \<lparr>fe_value = v, fe_state = COMPLETE_EVALUATED\<rparr>
        else if has_continuation state then \<lparr>fe_value = v, fe_state = CONTINUE_EVALUATED\<rparr>
        else \<lparr>fe_value = v, fe_state = EVALUATED\<rparr>)
     else if is_complete state then \<lparr>fe_value = v, fe_state = COMPLETE\<rparr>
     else if has_continuation state then \<lparr>fe_value = v, fe_state = CONTINUE\<rparr>
     else \<lparr>fe_value = v, fe_state = NONE\<rparr>)"

text \<open>
  The constructor from \<open>std::optional<Type>\<close> and a state delegates to the one from
  \<open>std::optional<Maybe<Type>>\<close>; it is read here as wrapping the value, when there is
  one, in a \<open>Maybe\<close>.
\<close>

definition FunctionEvaluation_optional_State ::
  "'a option \<Rightarrow> State \<Rightarrow> 'a FunctionEvaluation" where
  "FunctionEvaluation_optional_State v state =
    FunctionEvaluation_optional_Maybe_State (map_option Value v) state"

text \<open>
  The constructor from a bare state asserts that the state has no evaluation; a failed
  assertion is the outcome \<open>Aborted\<close>.
\<close>

definition FunctionEvaluation_State :: "State \<Rightarrow> 'a FunctionEvaluation outcome" where
  "FunctionEvaluation_State state =
    (if \<not> has_evaluation state then Returned \<lparr>fe_value = None, fe_state = state\<rparr>
     else Aborted)"

text \<open>The constructors of the specialisation \<open>FunctionEvaluation<void>\<close>.\<close>

definition FunctionEvaluation_void_default :: "unit FunctionEvaluation" where
  "FunctionEvaluation_void_default = \<lparr>fe_value = None, fe_state = NONE\<rparr>"

definition FunctionEvaluation_void_Maybe :: "unit Maybe \<Rightarrow> unit FunctionEvaluation" where
  "FunctionEvaluation_void_Maybe v = \<lparr>fe_value = Some v, fe_state = EVALUATED\<rparr>"

definition FunctionEvaluation_void_optional_Maybe ::
  "unit Maybe option \<Rightarrow> unit FunctionEvaluation" where
  "FunctionEvaluation_void_optional_Maybe v =
    (if v \<noteq> None then \<lparr>fe_value = v, fe_state = EVALUATED\<rparr>
     else \<lparr>fe_value = v, fe_state = NONE\<rparr>)"

definition FunctionEvaluation_void_Maybe_State ::
  "unit Maybe \<Rightarrow> State \<Rightarrow> unit FunctionEvaluation" where
  "FunctionEvaluation_void_Maybe_State v state =
    (if is_complete state then \<lparr>fe_value = Some v, fe_state = COMPLETE_EVALUATED\<rparr>
     else \<lparr>fe_value = Some v, fe_state = EVALUATED\<rparr>)"

definition FunctionEvaluation_void_optional_Maybe_State ::
  "unit Maybe option \<Rightarrow> State \<Rightarrow> unit FunctionEvaluation" where
  "FunctionEvaluation_void_optional_Maybe_State v state =
    (if v \<noteq> None then
       (if is_complete state then \<lparr>fe_value = v, fe_state = COMPLETE_EVALUATED\<rparr>
        else \<lparr>fe_value = v, fe_state = EVALUATED\<rparr>)
     else if is_complete state then \<lparr>fe_value = v, fe_state = COMPLETE\<rparr>
     else \<lparr>fe_value = v, fe_state = NONE\<rparr>)"

definition FunctionEvaluation_void_State :: "State \<Rightarrow> unit FunctionEvaluation outcome" where
  "FunctionEvaluation_void_State state =
    (if \<not> has_evaluation state then Returned \<lparr>fe_value = None, fe_state = state\<rparr>
     else Aborted)"


section \<open>Lift (Aspen/Lift.hpp)\<close>

text \<open>
  \<open>Details::FunctionEvaluator<T>\<close>. The parameter \<open>call\<close> is the lifted function applied
  to \<open>try_call(eval)\<close> of every argument of the pack, its result converted to a
  \<open>FunctionEvaluation<T>\<close> by one of the constructors above; \<open>function\<close> is the state the
  function object carries from one call to the next. A returned evaluation that holds a
  value overwrites the value slot; an exception leaves through the caller.
\<close>

definition FunctionEvaluator ::
  "('f \<Rightarrow> 'p \<Rightarrow> 'a FunctionEvaluation outcome \<times> 'f) \<Rightarrow>
    'a Maybe \<Rightarrow> 'f \<Rightarrow> 'p \<Rightarrow> (State \<times> 'a Maybe) outcome \<times> 'f" where
  "FunctionEvaluator call value function pack =
    (case call function pack of
      (Returned evaluation, f) \<Rightarrow>
        (Returned (fe_state evaluation,
           (case fe_value evaluation of Some v \<Rightarrow> v | None \<Rightarrow> value)), f)
    | (Threw e, f) \<Rightarrow> (Threw e, f)
    | (Aborted, f) \<Rightarrow> (Aborted, f))"

text \<open>
  \<open>Details::FunctionEvaluator<void>\<close>: the call of the function is itself wrapped in
  \<open>try_call\<close>, which captures what the function raises (\<open>try_call_void\<close>; a failed
  assertion still ends the program); the \<open>FunctionEvaluation<void>\<close> built from it is
  dropped, the value slot is not written and the result is always \<open>EVALUATED\<close>.
\<close>

fun try_call_void :: "unit outcome \<Rightarrow> unit Maybe option" where
  "try_call_void (Returned v) = Some (Value v)"
| "try_call_void (Threw e) = Some (Exception e)"
| "try_call_void Aborted = None"

definition FunctionEvaluator_void ::
  "('f \<Rightarrow> 'p \<Rightarrow> unit outcome \<times> 'f) \<Rightarrow>
    unit Maybe \<Rightarrow> 'f \<Rightarrow> 'p \<Rightarrow> (State \<times> unit Maybe) outcome \<times> 'f" where
  "FunctionEvaluator_void call value function pack =
    (case call function pack of (result, f) \<Rightarrow>
      (case try_call_void result of
        Some captured \<Rightarrow>
          (let evaluation = FunctionEvaluation_void_Maybe captured
           in (Returned (EVALUATED, value), f))
      | None \<Rightarrow> (Aborted, f)))"

text \<open>
  The reactor \<open>Lift<F, A...>\<close> with at least one argument. \<open>m_arguments\<close> holds the
  children, \<open>m_handler\<close> the book-keeping of the commit handler over them. Sequence
  numbers are only compared for equality, so the C++ \<open>int\<close> is an \<open>int\<close> here.
\<close>

record ('f, 'c, 'h, 'a) Lift =
  m_function :: 'f
  m_arguments :: 'c
  m_handler :: 'h
  m_value :: "'a Maybe"
  m_state :: State
  m_previous_sequence :: int
  m_has_continuation :: bool
  m_had_evaluation :: bool

text \<open>
  The constructor. A default-constructed \<open>Maybe<Type>\<close> is the parameter \<open>initial\<close>
  (\<^verbatim>\<open>Maybe.hpp\<close> is absent).
\<close>

definition Lift_new :: "'f \<Rightarrow> 'c \<Rightarrow> 'h \<Rightarrow> 'a Maybe \<Rightarrow> ('f, 'c, 'h, 'a) Lift" where
  "Lift_new function arguments handler initial =
    \<lparr>m_function = function, m_arguments = arguments, m_handler = handler,
     m_value = initial, m_state = NONE, m_previous_sequence = - 1,
     m_has_continuation = False, m_had_evaluation = False\<rparr>"

text \<open>
  \<open>Lift::invoke\<close>: an exception of the evaluator is caught, stored in the value slot and
  reported as \<open>EVALUATED\<close>. \<open>None\<close> is the program ended by a failed assertion.
\<close>

definition Lift_invoke ::
  "('a Maybe \<Rightarrow> 'f \<Rightarrow> 'c \<Rightarrow> (State \<times> 'a Maybe) outcome \<times> 'f) \<Rightarrow>
    ('f, 'c, 'h, 'a) Lift \<Rightarrow> (State \<times> ('f, 'c, 'h, 'a) Lift) option" where
  "Lift_invoke evaluator r =
    (case evaluator (m_value r) (m_function r) (m_arguments r) of
      (Returned (state, v), f) \<Rightarrow> Some (state, r\<lparr>m_function := f, m_value := v\<rparr>)
    | (Threw e, f) \<Rightarrow> Some (EVALUATED, r\<lparr>m_function := f, m_value := Exception e\<rparr>)
    | (Aborted, f) \<Rightarrow> None)"

text \<open>
  \<open>Lift::commit\<close>. \<open>handler_commit\<close> is \<open>m_handler.commit\<close>, which commits the children
  and returns their aggregated state. The function is written in three parts:
  \<open>Lift_commit_invocation\<close> is the cascade that follows \<open>auto invocation = invoke()\<close>,
  \<open>Lift_commit_memoize\<close> the three statements that end the function.
\<close>

definition Lift_commit_invocation ::
  "State \<Rightarrow> State \<Rightarrow> ('f, 'c, 'h, 'a) Lift \<Rightarrow> ('f, 'c, 'h, 'a) Lift" where
  "Lift_commit_invocation state invocation r =
    (if invocation = NONE then
       (if is_complete state then
          (if m_had_evaluation r then r\<lparr>m_state := COMPLETE\<rparr>
           else r\<lparr>m_state := COMPLETE_EMPTY\<rparr>)
        else if has_continuation state then r\<lparr>m_state := CONTINUE\<rparr>
        else r\<lparr>m_state := NONE\<rparr>)
     else if is_complete invocation then
       (if has_evaluation invocation then r\<lparr>m_state := COMPLETE_EVALUATED\<rparr>
        else if m_had_evaluation r then r\<lparr>m_state := COMPLETE\<rparr>
        else r\<lparr>m_state := COMPLETE_EMPTY\<rparr>)
     else
       (let r = r\<lparr>m_state := invocation,
              m_has_continuation := has_continuation invocation\<rparr>
        in if has_continuation state then
             r\<lparr>m_state := combine (m_state r) CONTINUE\<rparr>
           else if is_complete state \<and> \<not> m_has_continuation r then
             r\<lparr>m_state := combine (m_state r) COMPLETE\<rparr>
           else r))"

definition Lift_commit_memoize ::
  "int \<Rightarrow> ('f, 'c, 'h, 'a) Lift \<Rightarrow> State \<times> ('f, 'c, 'h, 'a) Lift" where
  "Lift_commit_memoize sequence r =
    (let r = r\<lparr>m_previous_sequence := sequence,
           m_had_evaluation := (m_had_evaluation r \<or> has_evaluation (m_state r))\<rparr>
     in (m_state r, r))"

definition Lift_commit ::
  "('a Maybe \<Rightarrow> 'f \<Rightarrow> 'c \<Rightarrow> (State \<times> 'a Maybe) outcome \<times> 'f) \<Rightarrow>
    (int \<Rightarrow> 'h \<times> 'c \<Rightarrow> State \<times> 'h \<times> 'c) \<Rightarrow>
    int \<Rightarrow> ('f, 'c, 'h, 'a) Lift \<Rightarrow> (State \<times> ('f, 'c, 'h, 'a) Lift) option" where
  "Lift_commit evaluator handler_commit sequence r =
    (if sequence = m_previous_sequence r \<or> is_complete (m_state r) then Some (m_state r, r)
     else
      (case handler_commit sequence (m_handler r, m_arguments r) of (state, h, c) \<Rightarrow>
        let r = r\<lparr>m_handler := h, m_arguments := c\<rparr> in
        if has_evaluation state \<or> m_has_continuation r \<or>
            is_complete state \<and> \<not> is_empty state then
          (case Lift_invoke evaluator (r\<lparr>m_has_continuation := False\<rparr>) of
            None \<Rightarrow> None
          | Some (invocation, r) \<Rightarrow>
              Some (Lift_commit_memoize sequence (Lift_commit_invocation state invocation r)))
        else Some (Lift_commit_memoize sequence (r\<lparr>m_state := state\<rparr>))))"

text \<open>\<open>Lift::eval\<close> reads the value slot: the value, or the stored exception raised.\<close>

definition Lift_eval :: "('f, 'c, 'h, 'a) Lift \<Rightarrow> exception_ptr + 'a" where
  "Lift_eval r = get (m_value r)"


text \<open>
  The specialisation \<open>Lift<F>\<close> for a function without parameters. Its fields are
  \<open>m_function\<close>, \<open>m_value\<close> and \<open>m_state\<close> in the source; the pack of arguments is the
  empty tuple.
\<close>

record ('f, 'a) Lift_nullary =
  n_function :: 'f
  n_value :: "'a Maybe"
  n_state :: State

definition Lift_nullary_new :: "'f \<Rightarrow> 'a Maybe \<Rightarrow> ('f, 'a) Lift_nullary" where
  "Lift_nullary_new function initial =
    \<lparr>n_function = function, n_value = initial, n_state = NONE\<rparr>"

definition Lift_nullary_invoke ::
  "('a Maybe \<Rightarrow> 'f \<Rightarrow> unit \<Rightarrow> (State \<times> 'a Maybe) outcome \<times> 'f) \<Rightarrow>
    ('f, 'a) Lift_nullary \<Rightarrow> (State \<times> ('f, 'a) Lift_nullary) option" where
  "Lift_nullary_invoke evaluator r =
    (case evaluator (n_value r) (n_function r) () of
      (Returned (state, v), f) \<Rightarrow> Some (state, r\<lparr>n_function := f, n_value := v\<rparr>)
    | (Threw e, f) \<Rightarrow> Some (EVALUATED, r\<lparr>n_function := f, n_value := Exception e\<rparr>)
    | (Aborted, f) \<Rightarrow> None)"

definition Lift_nullary_commit ::
  "('a Maybe \<Rightarrow> 'f \<Rightarrow> unit \<Rightarrow> (State \<times> 'a Maybe) outcome \<times> 'f) \<Rightarrow>
    int \<Rightarrow> ('f, 'a) Lift_nullary \<Rightarrow> (State \<times> ('f, 'a) Lift_nullary) option" where
  "Lift_nullary_commit evaluator sequence r =
    (if n_state r \<noteq> NONE then Some (n_state r, r)
     else
      (case Lift_nullary_invoke evaluator r of
        None \<Rightarrow> None
      | Some (invocation, r) \<Rightarrow>
          let r = (if has_evaluation invocation then r\<lparr>n_state := COMPLETE_EVALUATED\<rparr>
                   else r\<lparr>n_state := COMPLETE_EMPTY\<rparr>)
          in Some (n_state r, r)))"

definition Lift_nullary_eval :: "('f, 'a) Lift_nullary \<Rightarrow> exception_ptr + 'a" where
  "Lift_nullary_eval r = get (n_value r)"


section \<open>Reactors as children\<close>

text \<open>
  A reactor type used as a child is given by its two operations over its state \<open>'s\<close>:
  \<open>commit\<close>, which returns the reported state and the reactor after the commit, and the
  \<open>const\<close> member \<open>eval\<close>, which returns the value or raises the captured error.
\<close>

record ('s, 'a) reactor =
  reactor_commit :: "int \<Rightarrow> 's \<Rightarrow> State \<times> 's"
  reactor_eval :: "'s \<Rightarrow> exception_ptr + 'a"


section \<open>Until (Aspen/Until.hpp)\<close>

text \<open>
  \<open>Until<C, T>\<close>, for children that are not \<open>noexcept\<close>: \<open>m_value\<close> is then a
  \<open>Maybe<Type>\<close> and \<open>try_eval\<close> is \<open>try_call\<close> of the child's \<open>eval\<close> (\<^verbatim>\<open>Traits.hpp\<close>
  is absent). The fields carry the prefix \<open>u_\<close> for the source's \<open>m_\<close>. The series is a
  \<open>std::optional<T>\<close>: \<open>None\<close> once it is destroyed.
\<close>

record ('c, 's, 'a) Until =
  u_condition :: 'c
  u_series :: "'s option"
  u_value :: "'a Maybe"
  u_condition_state :: State
  u_state :: State
  u_previous_sequence :: int

definition Until_new :: "'c \<Rightarrow> 's \<Rightarrow> 'a Maybe \<Rightarrow> ('c, 's, 'a) Until" where
  "Until_new condition series initial =
    \<lparr>u_condition = condition, u_series = Some series, u_value = initial,
     u_condition_state = EMPTY, u_state = EMPTY, u_previous_sequence = - 1\<rparr>"

text \<open>The block \<open>if(!is_complete(m_condition_state)) { ... }\<close> of \<open>Until::commit\<close>.\<close>

definition Until_commit_condition ::
  "('c, bool) reactor \<Rightarrow> int \<Rightarrow> ('c, 's, 'a) Until \<Rightarrow> ('c, 's, 'a) Until" where
  "Until_commit_condition C sequence r =
    (if \<not> is_complete (u_condition_state r) then
       (case reactor_commit C sequence (u_condition r) of (condition_state, c) \<Rightarrow>
         let r = r\<lparr>u_condition := c\<rparr>;
             r = (if has_evaluation condition_state \<or>
                     is_empty (u_condition_state r) \<and> \<not> is_empty condition_state then
                    (case reactor_eval C (u_condition r) of
                      Inr truthy \<Rightarrow>
                        if truthy then
                          (let r = r\<lparr>u_series := None\<rparr>
                           in if is_empty (u_state r) then r\<lparr>u_state := COMPLETE_EMPTY\<rparr>
                              else r\<lparr>u_state := COMPLETE\<rparr>)
                        else r
                    | Inl e \<Rightarrow> r\<lparr>u_value := Exception e\<rparr>)
                  else r)
         in r\<lparr>u_condition_state := condition_state\<rparr>)
     else r)"

text \<open>The block \<open>if(m_series.has_value()) { ... }\<close> of \<open>Until::commit\<close>.\<close>

definition Until_commit_series ::
  "('s, 'a) reactor \<Rightarrow> int \<Rightarrow> ('c, 's, 'a) Until \<Rightarrow> ('c, 's, 'a) Until" where
  "Until_commit_series T sequence r =
    (case u_series r of
      Some series \<Rightarrow>
        (case reactor_commit T sequence series of (series_state, series) \<Rightarrow>
          let r = r\<lparr>u_series := Some series\<rparr>;
              r = (if has_evaluation series_state \<or>
                      is_empty (u_state r) \<and> \<not> is_empty series_state then
                     r\<lparr>u_value := try_call (reactor_eval T series), u_state := EVALUATED\<rparr>
                   else if is_empty (u_state r) then r\<lparr>u_state := EMPTY\<rparr>
                   else r\<lparr>u_state := NONE\<rparr>)
          in if is_complete series_state then r\<lparr>u_state := combine (u_state r) COMPLETE\<rparr>
             else if has_continuation (u_condition_state r) \<or>
                 has_continuation series_state then
               r\<lparr>u_state := combine (u_state r) CONTINUE\<rparr>
             else r)
    | None \<Rightarrow> r)"

definition Until_commit ::
  "('c, bool) reactor \<Rightarrow> ('s, 'a) reactor \<Rightarrow> int \<Rightarrow> ('c, 's, 'a) Until \<Rightarrow>
    State \<times> ('c, 's, 'a) Until" where
  "Until_commit C T sequence r =
    (if sequence = u_previous_sequence r \<or> is_complete (u_state r) then (u_state r, r)
     else
      (let r = Until_commit_condition C sequence r;
           r = Until_commit_series T sequence r;
           r = r\<lparr>u_previous_sequence := sequence\<rparr>
       in (u_state r, r)))"

definition Until_eval :: "('c, 's, 'a) Until \<Rightarrow> exception_ptr + 'a" where
  "Until_eval r = get (u_value r)"


text \<open>
  A history of an \<open>Until\<close>: the commits of a list of sequence numbers in order, with the
  states they returned and the reactor at the end. A state is \<open>signalled\<close> when it carries
  an evaluation or a continuation.
\<close>

fun Until_run ::
  "('c, bool) reactor \<Rightarrow> ('s, 'a) reactor \<Rightarrow> int list \<Rightarrow> ('c, 's, 'a) Until \<Rightarrow>
    State list \<times> ('c, 's, 'a) Until" where
  "Until_run C T [] r = ([], r)"
| "Until_run C T (sequence # rest) r =
    (case Until_commit C T sequence r of (state, r) \<Rightarrow>
      (case Until_run C T rest r of (states, r') \<Rightarrow> (state # states, r')))"

definition signalled :: "State \<Rightarrow> bool" where
  "signalled s = (has_evaluation s \<or> has_continuation s)"


section \<open>Leaves and the commit handler\<close>

text \<open>
  Modelled from the spec: \<^verbatim>\<open>Aspen/Constant.hpp\<close> is absent. ``\<open>Constant(x)\<close>: first
  commit returns \<open>COMPLETE_EVALUATED\<close> with value \<open>x\<close>; subsequent commits return the
  same.'' The state of the reactor is the constant itself.
\<close>

definition Constant :: "('a, 'a) reactor" where
  "Constant =
    \<lparr>reactor_commit = (\<lambda>sequence x. (COMPLETE_EVALUATED, x)), reactor_eval = Inr\<rparr>"

text \<open>
  Modelled from the spec: \<^verbatim>\<open>Aspen/Throw.hpp\<close> is absent. ``\<open>Throw<T>(e)\<close>: first commit
  returns \<open>COMPLETE_EVALUATED\<close> with the value slot holding \<open>err(e)\<close>; \<open>eval()\<close>
  rethrows.'' The state of the reactor is its value slot.
\<close>

definition Throw_new :: "exception_ptr \<Rightarrow> 'a Maybe" where
  "Throw_new e = Exception e"

definition Throw :: "('a Maybe, 'a) reactor" where
  "Throw = \<lparr>reactor_commit = (\<lambda>sequence slot. (COMPLETE_EVALUATED, slot)), reactor_eval = get\<rparr>"

text \<open>
  Modelled from the spec: \<^verbatim>\<open>Aspen/Perpetual.hpp\<close> is absent. ``\<open>Perpetual\<close>: value-less
  reactor that returns \<open>CONTINUE_EVALUATED\<close> every commit and never completes.''
\<close>

definition Perpetual :: "(unit, unit) reactor" where
  "Perpetual =
    \<lparr>reactor_commit = (\<lambda>sequence u. (CONTINUE_EVALUATED, u)), reactor_eval = Inr\<rparr>"

text \<open>
  Modelled from the spec: \<^verbatim>\<open>Aspen/StateReactor.hpp\<close> is absent. ``\<open>StateReactor(r)\<close>:
  wraps a reactor \<open>r\<close>; its value is \<open>r\<close>'s most-recent state. Completes when \<open>r\<close>
  completes.'' The wrapped reactor is held by pointer, so a commit of the state reactor
  commits \<open>r\<close> in place; the pair is \<open>r\<close> and the value of the state reactor. The
  specification leaves open what the state reactor reports apart from completion: here
  every commit is an evaluation.
\<close>

definition StateReactor :: "('s, 'a) reactor \<Rightarrow> ('s \<times> State, State) reactor" where
  "StateReactor R =
    \<lparr>reactor_commit = (\<lambda>sequence (r, v).
       (case reactor_commit R sequence r of (state, r) \<Rightarrow>
         (if is_complete state then COMPLETE_EVALUATED else EVALUATED, (r, state)))),
     reactor_eval = (\<lambda>(r, v). Inr v)\<rparr>"

text \<open>
  Modelled from the spec: \<^verbatim>\<open>Aspen/StaticCommitHandler.hpp\<close> is absent. The handler
  keeps the latest state of every child (\<open>EMPTY\<close> before the first commit), its own
  composite state and the sequence of its last commit. A child is a commit operation on
  the tuple \<open>'c\<close> of all arguments, since a child may point at another one.

  ``\<open>commit(sequence)\<close> calls \<open>child.commit(sequence)\<close> on each non-complete child once, in
  argument order'': \<open>commit_children\<close> returns, for every child, the state it reported or
  \<open>None\<close> when it was skipped.
\<close>

record StaticCommitHandler =
  h_children :: "State list"
  h_state :: State
  h_previous_sequence :: int

definition StaticCommitHandler_new :: "nat \<Rightarrow> StaticCommitHandler" where
  "StaticCommitHandler_new n =
    \<lparr>h_children = replicate n EMPTY, h_state = EMPTY, h_previous_sequence = - 1\<rparr>"

fun commit_children ::
  "((int \<Rightarrow> 'c \<Rightarrow> State \<times> 'c) \<times> State) list \<Rightarrow> int \<Rightarrow> 'c \<Rightarrow> State option list \<times> 'c" where
  "commit_children [] sequence c = ([], c)"
| "commit_children ((child, latest) # children) sequence c =
    (if is_complete latest then
       (case commit_children children sequence c of (states, c) \<Rightarrow> (None # states, c))
     else
       (case child sequence c of (state, c) \<Rightarrow>
         (case commit_children children sequence c of (states, c) \<Rightarrow>
           (Some state # states, c))))"

text \<open>
  Modelled from the spec: the composite state. ``If a child returns a state with the
  evaluation bit, the aggregate has the evaluation bit. The aggregate has the continuation
  bit iff at least one child's state has it OR one child newly became non-empty while
  another was still empty in prior commits. The aggregate's \<open>empty\<close> bit is set iff every
  child is still empty. The aggregate's \<open>complete\<close> bit is set iff every child is
  complete.'' The lagging child is read as one that is empty still.
\<close>

fun latest_state :: "State \<times> State option \<Rightarrow> State" where
  "latest_state (previous, Some state) = state"
| "latest_state (previous, None) = previous"

definition aggregate :: "State list \<Rightarrow> State option list \<Rightarrow> State" where
  "aggregate previous states =
    (let reported = List.map_filter id states;
         latest = map latest_state (zip previous states)
     in \<lparr>evaluation_bit = list_ex has_evaluation reported,
         continuation_bit = (list_ex has_continuation reported \<or>
           list_ex (\<lambda>(earlier, later). is_empty earlier \<and> \<not> is_empty later)
             (zip previous latest) \<and> list_ex is_empty latest),
         complete_bit = list_all is_complete latest,
         empty_bit = list_all is_empty latest\<rparr>)"

text \<open>
  Modelled from the spec: ``calling \<open>commit(seq)\<close> again with the same \<open>seq\<close> returns a
  cached composite; children are not re-committed.''
\<close>

definition StaticCommitHandler_commit ::
  "(int \<Rightarrow> 'c \<Rightarrow> State \<times> 'c) list \<Rightarrow> int \<Rightarrow> StaticCommitHandler \<times> 'c \<Rightarrow>
    State \<times> StaticCommitHandler \<times> 'c" where
  "StaticCommitHandler_commit children sequence hc =
    (case hc of (h, c) \<Rightarrow>
      if sequence = h_previous_sequence h then (h_state h, h, c)
      else
        (case commit_children (zip children (h_children h)) sequence c of (states, c) \<Rightarrow>
          let state = aggregate (h_children h) states
          in (state,
              \<lparr>h_children = map latest_state (zip (h_children h) states), h_state = state,
               h_previous_sequence = sequence\<rparr>, c)))"


section \<open>range (Aspen/Range.hpp)\<close>

text \<open>
  The lambda lifted by \<open>range\<close>. Its captured \<open>value\<close> is the state of the function
  object: it is passed in and returned. \<open>get\<close> of an argument that holds an error raises,
  and the exception leaves the lambda with \<open>value\<close> as it is at that point. The element
  type is any type with an addition and a linear order, as the template's is. The
  parameter \<open>end\<close> of the source is \<open>stop\<close> here.
\<close>

definition range_candidate ::
  "('a::{plus, linorder}) option \<Rightarrow> 'a Maybe \<Rightarrow> 'a Maybe \<Rightarrow> exception_ptr + 'a" where
  "range_candidate value start step =
    (case value of
      None \<Rightarrow> get start
    | Some v \<Rightarrow>
        (case get step of
          Inl e \<Rightarrow> Inl e
        | Inr step_value \<Rightarrow>
            (let increment = v + step_value
             in (case get start of
               Inl e \<Rightarrow> Inl e
             | Inr start_value \<Rightarrow> Inr (max start_value increment)))))"

definition range_function ::
  "('a::{plus, linorder}) option \<Rightarrow> 'a Maybe \<Rightarrow> State \<Rightarrow> 'a Maybe \<Rightarrow> State \<Rightarrow> 'a Maybe \<Rightarrow>
    State \<Rightarrow> unit Maybe \<Rightarrow> 'a FunctionEvaluation outcome \<times> 'a option" where
  "range_function value start start_state stop end_state step step_state ignored =
    (case range_candidate value start step of
      Inl e \<Rightarrow> (Threw e, value)
    | Inr c \<Rightarrow>
        (case get stop of
          Inl e \<Rightarrow> (Threw e, value)
        | Inr stop_value \<Rightarrow>
            if c \<ge> stop_value then
              (if is_complete start_state \<and> is_complete end_state then
                 (FunctionEvaluation_State COMPLETE, value)
               else (FunctionEvaluation_State NONE, value))
            else
              (let value = Some c
               in if is_complete start_state \<and> is_complete end_state then
                    (case get step of
                      Inl e \<Rightarrow> (Threw e, value)
                    | Inr step_value \<Rightarrow>
                        if c + step_value \<ge> stop_value then
                          (Returned (FunctionEvaluation_Type_State c COMPLETE), value)
                        else (Returned (FunctionEvaluation_Type c), value))
                  else (Returned (FunctionEvaluation_Type c), value))))"

text \<open>
  The seven arguments of the \<open>Lift\<close> that \<open>range\<close> builds: the three reactors, each
  followed by the \<open>StateReactor\<close> that points at it, and \<open>perpetual()\<close>, which has no
  state. The value of a state reactor before its first commit is not specified; it is
  never read before then, and is \<open>NONE\<close> here.
\<close>

record ('s, 'e, 't) range_arguments =
  start_reactor :: 's
  start_updates :: State
  stop_reactor :: 'e
  stop_updates :: State
  step_reactor :: 't
  step_updates :: State

definition range_children ::
  "('s, 'a) reactor \<Rightarrow> ('e, 'a) reactor \<Rightarrow> ('t, 'a) reactor \<Rightarrow>
    (int \<Rightarrow> ('s, 'e, 't) range_arguments \<Rightarrow> State \<times> ('s, 'e, 't) range_arguments) list" where
  "range_children start stop step =
    [\<lambda>sequence a. (case reactor_commit start sequence (start_reactor a) of
        (state, r) \<Rightarrow> (state, a\<lparr>start_reactor := r\<rparr>)),
     \<lambda>sequence a. (case reactor_commit (StateReactor start) sequence
          (start_reactor a, start_updates a) of
        (state, r, v) \<Rightarrow> (state, a\<lparr>start_reactor := r, start_updates := v\<rparr>)),
     \<lambda>sequence a. (case reactor_commit stop sequence (stop_reactor a) of
        (state, r) \<Rightarrow> (state, a\<lparr>stop_reactor := r\<rparr>)),
     \<lambda>sequence a. (case reactor_commit (StateReactor stop) sequence
          (stop_reactor a, stop_updates a) of
        (state, r, v) \<Rightarrow> (state, a\<lparr>stop_reactor := r, stop_updates := v\<rparr>)),
     \<lambda>sequence a. (case reactor_commit step sequence (step_reactor a) of
        (state, r) \<Rightarrow> (state, a\<lparr>step_reactor := r\<rparr>)),
     \<lambda>sequence a. (case reactor_commit (StateReactor step) sequence
          (step_reactor a, step_updates a) of
        (state, r, v) \<Rightarrow> (state, a\<lparr>step_reactor := r, step_updates := v\<rparr>)),
     \<lambda>sequence a. (case reactor_commit Perpetual sequence () of
        (state, u) \<Rightarrow> (state, a))]"

text \<open>
  The lambda applied to \<open>try_call(eval)\<close> of the seven arguments. The \<open>eval\<close> of a state
  reactor returns its value and that of \<open>perpetual()\<close> returns nothing; neither raises.
\<close>

definition range_call ::
  "('s, 'a) reactor \<Rightarrow> ('e, 'a) reactor \<Rightarrow> ('t, 'a) reactor \<Rightarrow>
    ('a::{plus, linorder}) option \<Rightarrow> ('s, 'e, 't) range_arguments \<Rightarrow>
    'a FunctionEvaluation outcome \<times> 'a option" where
  "range_call start stop step value a =
    range_function value
      (try_call (reactor_eval start (start_reactor a))) (start_updates a)
      (try_call (reactor_eval stop (stop_reactor a))) (stop_updates a)
      (try_call (reactor_eval step (step_reactor a))) (step_updates a)
      (try_call (reactor_eval Perpetual ()))"

type_synonym ('s, 'e, 't, 'a) range_reactor =
  "('a option, ('s, 'e, 't) range_arguments, StaticCommitHandler, 'a) Lift"

definition range_new :: "'s \<Rightarrow> 'e \<Rightarrow> 't \<Rightarrow> 'a Maybe \<Rightarrow> ('s, 'e, 't, 'a) range_reactor" where
  "range_new start stop step initial =
    Lift_new None
      \<lparr>start_reactor = start, start_updates = NONE, stop_reactor = stop,
       stop_updates = NONE, step_reactor = step, step_updates = NONE\<rparr>
      (StaticCommitHandler_new 7) initial"

definition range_commit ::
  "('s, 'a) reactor \<Rightarrow> ('e, 'a) reactor \<Rightarrow> ('t, 'a) reactor \<Rightarrow> int \<Rightarrow>
    ('s, 'e, 't, 'a::{plus, linorder}) range_reactor \<Rightarrow>
    (State \<times> ('s, 'e, 't, 'a) range_reactor) option" where
  "range_commit start stop step =
    Lift_commit (FunctionEvaluator (range_call start stop step))
      (StaticCommitHandler_commit (range_children start stop step))"


text \<open>
  What holds of the handler of every \<open>range\<close> reactor, from its construction on and
  after every commit (lemmas \<open>range_invariant_new\<close> and \<open>range_invariant_commit\<close>): it
  has seven children, the last of them, \<open>perpetual()\<close>, is not complete, and it was last
  committed with the sequence of the last commit of the \<open>Lift\<close>.
\<close>

definition range_invariant :: "('s, 'e, 't, 'a) range_reactor \<Rightarrow> bool" where
  "range_invariant r =
    (length (h_children (m_handler r)) = 7 \<and>
     \<not> is_complete (h_children (m_handler r) ! 6) \<and>
     h_previous_sequence (m_handler r) = m_previous_sequence r)"


section \<open>The executor loop\<close>

text \<open>
  The loop of the specification's consumer contract, over a list of sequence numbers:
  commit the reactor and, if the state has the evaluation bit, read \<open>eval\<close>. The result
  is the list of reports and the reactor at the end, or \<open>None\<close> when a commit did not
  return.
\<close>

fun drive ::
  "(int \<Rightarrow> 'r \<Rightarrow> (State \<times> 'r) option) \<Rightarrow> ('r \<Rightarrow> 'v) \<Rightarrow> int list \<Rightarrow> 'r \<Rightarrow>
    ((State \<times> 'v option) list \<times> 'r) option" where
  "drive commit eval [] r = Some ([], r)"
| "drive commit eval (sequence # rest) r =
    (case commit sequence r of
      None \<Rightarrow> None
    | Some (state, r) \<Rightarrow>
        (case drive commit eval rest r of
          None \<Rightarrow> None
        | Some (reports, r') \<Rightarrow>
            Some ((state, if has_evaluation state then Some (eval r) else None) # reports,
              r')))"


section \<open>A reactor for examples\<close>

text \<open>
  A reactor as a user of the library may write one, used as the input of examples: it
  replays a list of reports, one per commit, each a state and what \<open>eval\<close> gives from
  then on (a value, or an error to raise). A commit with the sequence of the previous
  one is answered from the memo, and a commit after the list is exhausted reports
  \<open>NONE\<close>.
\<close>

record 'a Scripted =
  script :: "(State \<times> (exception_ptr + 'a)) list"
  reported :: State
  current :: "exception_ptr + 'a"
  committed :: int

definition Scripted_new :: "(State \<times> (exception_ptr + 'a)) list \<Rightarrow> 'a Scripted" where
  "Scripted_new reports =
    \<lparr>script = reports, reported = EMPTY, current = Inl ''no value'', committed = - 1\<rparr>"

definition Scripted :: "('a Scripted, 'a) reactor" where
  "Scripted =
    \<lparr>reactor_commit = (\<lambda>sequence r.
       if sequence = committed r then (reported r, r)
       else
         (case script r of
           [] \<Rightarrow> (NONE, r\<lparr>reported := NONE, committed := sequence\<rparr>)
         | (state, v) # rest \<Rightarrow>
             (state, \<lparr>script = rest, reported = state, current = v, committed = sequence\<rparr>))),
     reactor_eval = current\<rparr>"


section \<open>Evaluations built by the constructors\<close>

text \<open>
  The members of \<open>FunctionEvaluation\<close> are public, but the library and the conversions
  from a function's result build it through the constructors only. Every constructor
  stores a value only together with a state that has the evaluation bit.
\<close>

definition constructed :: "'a FunctionEvaluation \<Rightarrow> bool" where
  "constructed evaluation =
    (fe_value evaluation = None \<or> has_evaluation (fe_state evaluation))"


section \<open>Facts about states\<close>

lemmas State_names =
  EMPTY_def NONE_def EVALUATED_def CONTINUE_def CONTINUE_EVALUATED_def COMPLETE_def
  COMPLETE_EMPTY_def COMPLETE_EVALUATED_def

lemma is_complete_simps [simp]:
  "is_complete COMPLETE" "is_complete COMPLETE_EMPTY" "is_complete COMPLETE_EVALUATED"
  "\<not> is_complete NONE" "\<not> is_complete EMPTY" "\<not> is_complete EVALUATED"
  "\<not> is_complete CONTINUE" "\<not> is_complete CONTINUE_EVALUATED"
  by (simp_all add: is_complete_def State_names)

lemma has_evaluation_simps [simp]:
  "has_evaluation EVALUATED" "has_evaluation CONTINUE_EVALUATED"
  "has_evaluation COMPLETE_EVALUATED"
  "\<not> has_evaluation NONE" "\<not> has_evaluation EMPTY" "\<not> has_evaluation CONTINUE"
  "\<not> has_evaluation COMPLETE" "\<not> has_evaluation COMPLETE_EMPTY"
  by (simp_all add: has_evaluation_def State_names)

lemma has_continuation_simps [simp]:
  "has_continuation CONTINUE" "has_continuation CONTINUE_EVALUATED"
  "\<not> has_continuation NONE" "\<not> has_continuation EMPTY" "\<not> has_continuation EVALUATED"
  "\<not> has_continuation COMPLETE" "\<not> has_continuation COMPLETE_EMPTY"
  "\<not> has_continuation COMPLETE_EVALUATED"
  by (simp_all add: has_continuation_def State_names)

lemma is_empty_simps [simp]:
  "is_empty EMPTY" "is_empty COMPLETE_EMPTY"
  "\<not> is_empty NONE" "\<not> is_empty EVALUATED" "\<not> is_empty CONTINUE"
  "\<not> is_empty CONTINUE_EVALUATED" "\<not> is_empty COMPLETE" "\<not> is_empty COMPLETE_EVALUATED"
  by (simp_all add: is_empty_def State_names)

lemma combine_simps [simp]:
  "combine EVALUATED CONTINUE = CONTINUE_EVALUATED"
  "combine EVALUATED COMPLETE = COMPLETE_EVALUATED"
  "combine CONTINUE_EVALUATED CONTINUE = CONTINUE_EVALUATED"
  "combine NONE CONTINUE = CONTINUE"
  "combine NONE COMPLETE = COMPLETE"
  "combine EMPTY CONTINUE = CONTINUE"
  "combine EMPTY COMPLETE = COMPLETE"
  by (simp_all add: combine_def State_names)

lemma combine_bits [simp]:
  "has_evaluation (combine a b) = (has_evaluation a \<or> has_evaluation b)"
  "has_continuation (combine a b) = (has_continuation a \<or> has_continuation b)"
  "is_complete (combine a b) = (is_complete a \<or> is_complete b)"
  "is_empty (combine a b) = (is_empty a \<and> is_empty b)"
  by (simp_all add: combine_def has_evaluation_def has_continuation_def is_complete_def
      is_empty_def)

lemma State_distinct [simp]:
  "EVALUATED \<noteq> NONE" "CONTINUE_EVALUATED \<noteq> NONE" "COMPLETE_EVALUATED \<noteq> NONE"
  "COMPLETE \<noteq> NONE" "COMPLETE_EMPTY \<noteq> NONE" "CONTINUE \<noteq> NONE" "EMPTY \<noteq> NONE"
  "NONE \<noteq> EVALUATED" "NONE \<noteq> CONTINUE_EVALUATED" "NONE \<noteq> COMPLETE_EVALUATED"
  "NONE \<noteq> COMPLETE" "NONE \<noteq> COMPLETE_EMPTY" "NONE \<noteq> CONTINUE" "NONE \<noteq> EMPTY"
  "EVALUATED \<noteq> CONTINUE_EVALUATED" "CONTINUE_EVALUATED \<noteq> EVALUATED"
  "COMPLETE_EVALUATED \<noteq> CONTINUE_EVALUATED" "CONTINUE_EVALUATED \<noteq> COMPLETE_EVALUATED"
  "COMPLETE_EVALUATED \<noteq> EVALUATED" "EVALUATED \<noteq> COMPLETE_EVALUATED"
  "COMPLETE \<noteq> COMPLETE_EMPTY" "COMPLETE_EMPTY \<noteq> COMPLETE"
  "CONTINUE \<noteq> COMPLETE" "COMPLETE \<noteq> CONTINUE"
  "CONTINUE \<noteq> COMPLETE_EMPTY" "COMPLETE_EMPTY \<noteq> CONTINUE"
  by (simp_all add: State_names)


lemma State_literals [simp]:
  "\<lparr>evaluation_bit = False, continuation_bit = False, complete_bit = False,
    empty_bit = True\<rparr> = EMPTY"
  "\<lparr>evaluation_bit = False, continuation_bit = False, complete_bit = False,
    empty_bit = False\<rparr> = NONE"
  "\<lparr>evaluation_bit = True, continuation_bit = False, complete_bit = False,
    empty_bit = False\<rparr> = EVALUATED"
  "\<lparr>evaluation_bit = False, continuation_bit = True, complete_bit = False,
    empty_bit = False\<rparr> = CONTINUE"
  "\<lparr>evaluation_bit = True, continuation_bit = True, complete_bit = False,
    empty_bit = False\<rparr> = CONTINUE_EVALUATED"
  "\<lparr>evaluation_bit = False, continuation_bit = False, complete_bit = True,
    empty_bit = False\<rparr> = COMPLETE"
  "\<lparr>evaluation_bit = False, continuation_bit = False, complete_bit = True,
    empty_bit = True\<rparr> = COMPLETE_EMPTY"
  "\<lparr>evaluation_bit = True, continuation_bit = False, complete_bit = True,
    empty_bit = False\<rparr> = COMPLETE_EVALUATED"
  by (simp_all add: State_names)


section \<open>Facts about Lift\<close>

text \<open>A commit that is not answered from the memo and invokes the function.\<close>

lemma Lift_commit_invoked:
  assumes "sequence \<noteq> m_previous_sequence r" and "\<not> is_complete (m_state r)"
    and "handler_commit sequence (m_handler r, m_arguments r) = (S, h, c)"
    and "has_evaluation S \<or> m_has_continuation r \<or> is_complete S \<and> \<not> is_empty S"
  shows "Lift_commit evaluator handler_commit sequence r =
    (case Lift_invoke evaluator
        (r\<lparr>m_handler := h, m_arguments := c, m_has_continuation := False\<rparr>) of
      None \<Rightarrow> None
    | Some (invocation, r') \<Rightarrow>
        Some (Lift_commit_memoize sequence (Lift_commit_invocation S invocation r')))"
  using assms by (simp add: Lift_commit_def)

lemma Lift_invoke_Returned:
  assumes "call (m_function r) (m_arguments r) = (Returned evaluation, f)"
  shows "Lift_invoke (FunctionEvaluator call) r =
    Some (fe_state evaluation, r\<lparr>m_function := f,
      m_value := (case fe_value evaluation of Some v \<Rightarrow> v | None \<Rightarrow> m_value r)\<rparr>)"
  using assms by (simp add: Lift_invoke_def FunctionEvaluator_def)

lemma Lift_invoke_Threw:
  assumes "call (m_function r) (m_arguments r) = (Threw e, f)"
  shows "Lift_invoke (FunctionEvaluator call) r =
    Some (EVALUATED, r\<lparr>m_function := f, m_value := Exception e\<rparr>)"
  using assms by (simp add: Lift_invoke_def FunctionEvaluator_def)


section \<open>Lift: the state of a commit that produced a value\<close>

text \<open>
  C1. On a commit of a \<open>Lift\<close> with children that invokes the function, where the
  function returns a value: a result that carries its own continuation
  (\<open>CONTINUE_EVALUATED\<close>) makes the commit return \<open>CONTINUE_EVALUATED\<close> whatever the
  aggregated state \<open>S\<close> of the children is; a result with neither completion nor
  continuation (\<open>EVALUATED\<close>) is merged with \<open>S\<close>: \<open>CONTINUE_EVALUATED\<close> if \<open>S\<close> has the
  continuation bit, otherwise \<open>COMPLETE_EVALUATED\<close> if \<open>S\<close> is complete, otherwise
  \<open>EVALUATED\<close>. The value returned is stored in the value slot.
\<close>

theorem Lift_commit_value_merge:
  assumes "sequence \<noteq> m_previous_sequence r" and "\<not> is_complete (m_state r)"
    and "handler_commit sequence (m_handler r, m_arguments r) = (S, h, c)"
    and "has_evaluation S \<or> m_has_continuation r \<or> is_complete S \<and> \<not> is_empty S"
    and "call (m_function r) c = (Returned evaluation, f)"
    and "fe_value evaluation = Some v"
    and "fe_state evaluation = EVALUATED \<or> fe_state evaluation = CONTINUE_EVALUATED"
  shows "\<exists>r'. Lift_commit (FunctionEvaluator call) handler_commit sequence r =
      Some (if fe_state evaluation = CONTINUE_EVALUATED then CONTINUE_EVALUATED
        else if has_continuation S then CONTINUE_EVALUATED
        else if is_complete S then COMPLETE_EVALUATED
        else EVALUATED, r') \<and> m_value r' = v"
proof -
  let ?r1 = "r\<lparr>m_handler := h, m_arguments := c, m_has_continuation := False\<rparr>"
  have inv: "Lift_invoke (FunctionEvaluator call) ?r1 =
    Some (fe_state evaluation, ?r1\<lparr>m_function := f, m_value := v\<rparr>)"
    using assms(5,6) by (simp add: Lift_invoke_Returned)
  have c: "Lift_commit (FunctionEvaluator call) handler_commit sequence r =
    Some (Lift_commit_memoize sequence (Lift_commit_invocation S (fe_state evaluation)
      (?r1\<lparr>m_function := f, m_value := v\<rparr>)))"
    using assms(1-4) by (simp add: Lift_commit_invoked inv)
  show ?thesis
    using assms(7)
    by (auto simp add: c Lift_commit_memoize_def Lift_commit_invocation_def Let_def)
qed

text \<open>
  The theorem at a \<open>Lift\<close> whose handler reports \<open>COMPLETE_EVALUATED\<close> (as for a single
  constant child) and whose function returns the plain value 5.
\<close>

theorem Lift_commit_value_merge_witness:
  "\<exists>r'. Lift_commit (FunctionEvaluator (\<lambda>f c. (Returned (FunctionEvaluation_Type (5::int)), f)))
      (\<lambda>sequence (h, c). (COMPLETE_EVALUATED, h, c)) 0
      (Lift_new () () () (Value 0)) = Some (COMPLETE_EVALUATED, r') \<and> m_value r' = Value 5"
  using Lift_commit_value_merge [of 0 "Lift_new () () () (Value 0)"
      "\<lambda>sequence (h, c). (COMPLETE_EVALUATED, h, c)" COMPLETE_EVALUATED "()" "()"
      "\<lambda>f c. (Returned (FunctionEvaluation_Type (5::int)), f)"
      "FunctionEvaluation_Type 5" "()" "Value 5"]
  by (simp add: Lift_new_def FunctionEvaluation_Type_def FunctionEvaluation_Maybe_def)

text \<open>
  The claim as stated fails where the function's result carries a continuation: the
  children are complete, the function returns \<open>FunctionEvaluation(5, State::CONTINUE)\<close>, a
  value without completion, and the commit returns \<open>CONTINUE_EVALUATED\<close>, not
  \<open>COMPLETE_EVALUATED\<close>.
\<close>

theorem Lift_commit_value_merge_counterexample:
  "is_complete COMPLETE_EVALUATED \<and>
   fe_value (FunctionEvaluation_Type_State (5::int) CONTINUE) = Some (Value 5) \<and>
   \<not> is_complete (fe_state (FunctionEvaluation_Type_State (5::int) CONTINUE)) \<and>
   map_option fst
     (Lift_commit
       (FunctionEvaluator (\<lambda>f c. (Returned (FunctionEvaluation_Type_State (5::int) CONTINUE), f)))
       (\<lambda>sequence (h, c). (COMPLETE_EVALUATED, h, c)) 0
       (Lift_new () () () (Value 0))) = Some CONTINUE_EVALUATED \<and>
   CONTINUE_EVALUATED \<noteq> COMPLETE_EVALUATED"
  by (simp add: Lift_commit_def Lift_invoke_def FunctionEvaluator_def Lift_new_def
      FunctionEvaluation_Type_State_def FunctionEvaluation_Maybe_State_def
      Lift_commit_memoize_def Lift_commit_invocation_def)


section \<open>Lift: completion is absorbing\<close>

lemma Lift_commit_memoize_state:
  "Lift_commit_memoize sequence r = (st, r') \<Longrightarrow> st = m_state r'"
  by (auto simp add: Lift_commit_memoize_def Let_def)

lemma Lift_commit_returns_state:
  assumes "Lift_commit evaluator handler_commit sequence r = Some (st, r')"
  shows "st = m_state r'"
  using assms
  by (auto simp add: Lift_commit_def Let_def Lift_commit_memoize_state
      split: if_splits prod.splits option.splits)

lemma Lift_nullary_commit_returns_state:
  assumes "Lift_nullary_commit evaluator sequence r = Some (st, r')"
  shows "st = n_state r'"
  using assms
  by (auto simp add: Lift_nullary_commit_def Let_def split: if_splits prod.splits option.splits)

lemma Until_commit_returns_state:
  assumes "Until_commit C T sequence r = (st, r')"
  shows "st = u_state r'"
  using assms
  by (auto simp add: Until_commit_def Let_def split: if_splits)

text \<open>
  C2. Completion is absorbing for the reactors with a memoized state, \<open>Lift\<close> (with and
  without arguments) and \<open>Until\<close>: once a commit has returned a state with the complete
  bit, a commit with any sequence number returns the same state and leaves the reactor as
  it is, its children included: no child is committed.
\<close>

theorem completion_is_absorbing:
  "(Lift_commit evaluator handler_commit s r = Some (st, r') \<and> is_complete st \<longrightarrow>
      Lift_commit evaluator handler_commit s' r' = Some (st, r')) \<and>
   (Lift_nullary_commit nullary_evaluator t n = Some (nst, n') \<and> is_complete nst \<longrightarrow>
      Lift_nullary_commit nullary_evaluator t' n' = Some (nst, n')) \<and>
   (Until_commit C T q u = (ust, u') \<and> is_complete ust \<longrightarrow>
      Until_commit C T q' u' = (ust, u'))"
proof (intro conjI impI)
  assume a: "Lift_commit evaluator handler_commit s r = Some (st, r') \<and> is_complete st"
  then have "st = m_state r'" using Lift_commit_returns_state by blast
  with a show "Lift_commit evaluator handler_commit s' r' = Some (st, r')"
    by (simp add: Lift_commit_def)
next
  assume a: "Lift_nullary_commit nullary_evaluator t n = Some (nst, n') \<and> is_complete nst"
  then have "nst = n_state n'" using Lift_nullary_commit_returns_state by blast
  with a show "Lift_nullary_commit nullary_evaluator t' n' = Some (nst, n')"
    by (auto simp add: Lift_nullary_commit_def)
next
  assume a: "Until_commit C T q u = (ust, u') \<and> is_complete ust"
  then have "ust = u_state u'" using Until_commit_returns_state by blast
  with a show "Until_commit C T q' u' = (ust, u')"
    by (simp add: Until_commit_def)
qed

text \<open>
  The theorem at three reactors. The handler of the \<open>Lift\<close> counts its commits in the
  place of the children: the count stays at 1. The series of the \<open>Until\<close> completes at
  the first commit, and the scripts of both children are as they were after it.
\<close>

theorem completion_is_absorbing_witness:
  "Lift_commit (FunctionEvaluator (\<lambda>f c. (Returned (FunctionEvaluation_Type (5::int)), f)))
      (\<lambda>sequence (h, c). (COMPLETE_EVALUATED, h, Suc c)) 0 (Lift_new () 0 () (Value 0)) =
    Some (COMPLETE_EVALUATED,
      \<lparr>m_function = (), m_arguments = 1::nat, m_handler = (), m_value = Value (5::int),
       m_state = COMPLETE_EVALUATED, m_previous_sequence = 0, m_has_continuation = False,
       m_had_evaluation = True\<rparr>) \<and>
   Lift_commit (FunctionEvaluator (\<lambda>f c. (Returned (FunctionEvaluation_Type (5::int)), f)))
      (\<lambda>sequence (h, c). (COMPLETE_EVALUATED, h, Suc c)) 1
      \<lparr>m_function = (), m_arguments = 1::nat, m_handler = (), m_value = Value (5::int),
       m_state = COMPLETE_EVALUATED, m_previous_sequence = 0, m_has_continuation = False,
       m_had_evaluation = True\<rparr> =
    Some (COMPLETE_EVALUATED,
      \<lparr>m_function = (), m_arguments = 1::nat, m_handler = (), m_value = Value (5::int),
       m_state = COMPLETE_EVALUATED, m_previous_sequence = 0, m_has_continuation = False,
       m_had_evaluation = True\<rparr>) \<and>
   Lift_nullary_commit
      (FunctionEvaluator (\<lambda>f c. (Returned (FunctionEvaluation_Type (5::int)), f))) 0
      (Lift_nullary_new () (Value 0)) =
    Some (COMPLETE_EVALUATED,
      \<lparr>n_function = (), n_value = Value (5::int), n_state = COMPLETE_EVALUATED\<rparr>) \<and>
   Lift_nullary_commit
      (FunctionEvaluator (\<lambda>f c. (Returned (FunctionEvaluation_Type (5::int)), f))) 1
      \<lparr>n_function = (), n_value = Value (5::int), n_state = COMPLETE_EVALUATED\<rparr> =
    Some (COMPLETE_EVALUATED,
      \<lparr>n_function = (), n_value = Value (5::int), n_state = COMPLETE_EVALUATED\<rparr>) \<and>
   Until_commit Scripted Scripted 0
      (Until_new (Scripted_new [(EVALUATED, Inr False)])
        (Scripted_new [(COMPLETE_EVALUATED, Inr (7::int))]) (Value 0)) =
    (COMPLETE_EVALUATED,
      \<lparr>u_condition =
         \<lparr>script = [], reported = EVALUATED, current = Inr False, committed = 0\<rparr>,
       u_series = Some
         \<lparr>script = [], reported = COMPLETE_EVALUATED, current = Inr (7::int), committed = 0\<rparr>,
       u_value = Value 7, u_condition_state = EVALUATED, u_state = COMPLETE_EVALUATED,
       u_previous_sequence = 0\<rparr>) \<and>
   Until_commit Scripted Scripted 1
      \<lparr>u_condition =
         \<lparr>script = [], reported = EVALUATED, current = Inr False, committed = 0\<rparr>,
       u_series = Some
         \<lparr>script = [], reported = COMPLETE_EVALUATED, current = Inr (7::int), committed = 0\<rparr>,
       u_value = Value 7, u_condition_state = EVALUATED, u_state = COMPLETE_EVALUATED,
       u_previous_sequence = 0\<rparr> =
    (COMPLETE_EVALUATED,
      \<lparr>u_condition =
         \<lparr>script = [], reported = EVALUATED, current = Inr False, committed = 0\<rparr>,
       u_series = Some
         \<lparr>script = [], reported = COMPLETE_EVALUATED, current = Inr (7::int), committed = 0\<rparr>,
       u_value = Value 7, u_condition_state = EVALUATED, u_state = COMPLETE_EVALUATED,
       u_previous_sequence = 0\<rparr>)"
proof -
  let ?E = "FunctionEvaluator (\<lambda>f c. (Returned (FunctionEvaluation_Type (5::int)), f))"
  let ?H = "\<lambda>sequence (h :: unit, c). (COMPLETE_EVALUATED, h, Suc c)"
  let ?R = "\<lparr>m_function = (), m_arguments = 1::nat, m_handler = (), m_value = Value (5::int),
       m_state = COMPLETE_EVALUATED, m_previous_sequence = 0, m_has_continuation = False,
       m_had_evaluation = True\<rparr>"
  let ?N = "\<lparr>n_function = (), n_value = Value (5::int), n_state = COMPLETE_EVALUATED\<rparr>"
  let ?U = "\<lparr>u_condition =
         \<lparr>script = [], reported = EVALUATED, current = Inr False, committed = 0\<rparr>,
       u_series = Some
         \<lparr>script = [], reported = COMPLETE_EVALUATED, current = Inr (7::int), committed = 0\<rparr>,
       u_value = Value 7, u_condition_state = EVALUATED, u_state = COMPLETE_EVALUATED,
       u_previous_sequence = 0\<rparr>"
  have l: "Lift_commit ?E ?H 0 (Lift_new () 0 () (Value 0)) = Some (COMPLETE_EVALUATED, ?R)"
    by (simp add: Lift_commit_def Lift_invoke_def FunctionEvaluator_def Lift_new_def
        FunctionEvaluation_Type_def FunctionEvaluation_Maybe_def Lift_commit_memoize_def
        Lift_commit_invocation_def)
  have n: "Lift_nullary_commit ?E 0 (Lift_nullary_new () (Value 0)) =
      Some (COMPLETE_EVALUATED, ?N)"
    by (simp add: Lift_nullary_commit_def Lift_nullary_invoke_def FunctionEvaluator_def
        Lift_nullary_new_def FunctionEvaluation_Type_def FunctionEvaluation_Maybe_def)
  have u: "Until_commit Scripted Scripted 0
      (Until_new (Scripted_new [(EVALUATED, Inr False)])
        (Scripted_new [(COMPLETE_EVALUATED, Inr (7::int))]) (Value 0)) =
      (COMPLETE_EVALUATED, ?U)"
    by (simp add: Until_commit_def Until_commit_condition_def Until_commit_series_def
        Until_new_def Scripted_new_def Scripted_def)
  have c: "is_complete COMPLETE_EVALUATED" by simp
  note absorbing = completion_is_absorbing
    [where s = 0 and s' = 1 and t = 0 and t' = 1 and q = 0 and q' = 1]
  have l': "Lift_commit ?E ?H 1 ?R = Some (COMPLETE_EVALUATED, ?R)"
    using absorbing l c by blast
  have n': "Lift_nullary_commit ?E 1 ?N = Some (COMPLETE_EVALUATED, ?N)"
    using absorbing n c by blast
  have u': "Until_commit Scripted Scripted 1 ?U = (COMPLETE_EVALUATED, ?U)"
    using absorbing u c by blast
  show ?thesis by (intro conjI l l' n n' u u')
qed


section \<open>Lift: exceptions of the lifted function\<close>

text \<open>
  With a result type other than \<open>void\<close>, an exception of the function is caught by
  \<open>Lift::invoke\<close>: the commit returns with the evaluation bit, the value slot holds the
  exception and \<open>eval\<close> raises it.
\<close>

lemma Lift_commit_captures_exception:
  assumes "sequence \<noteq> m_previous_sequence r" and "\<not> is_complete (m_state r)"
    and "handler_commit sequence (m_handler r, m_arguments r) = (S, h, c)"
    and "has_evaluation S \<or> m_has_continuation r \<or> is_complete S \<and> \<not> is_empty S"
    and "call (m_function r) c = (Threw e, f)"
  shows "\<exists>st r'. Lift_commit (FunctionEvaluator call) handler_commit sequence r =
      Some (st, r') \<and> has_evaluation st \<and> m_value r' = Exception e \<and> Lift_eval r' = Inl e"
proof -
  let ?r1 = "r\<lparr>m_handler := h, m_arguments := c, m_has_continuation := False\<rparr>"
  have inv: "Lift_invoke (FunctionEvaluator call) ?r1 =
    Some (EVALUATED, ?r1\<lparr>m_function := f, m_value := Exception e\<rparr>)"
    using assms(5) by (simp add: Lift_invoke_Threw)
  have c: "Lift_commit (FunctionEvaluator call) handler_commit sequence r =
    Some (Lift_commit_memoize sequence (Lift_commit_invocation S EVALUATED
      (?r1\<lparr>m_function := f, m_value := Exception e\<rparr>)))"
    using assms(1-4) by (simp add: Lift_commit_invoked inv)
  show ?thesis
    by (auto simp add: c Lift_commit_memoize_def Lift_commit_invocation_def Let_def
        Lift_eval_def)
qed

text \<open>The reactor \<open>Throw<int>\<close> of the specification, at the scenario of its test.\<close>

lemma Throw_commit_eval:
  "reactor_commit Throw 0 (Throw_new ''runtime_error'' :: int Maybe) =
    (COMPLETE_EVALUATED, Throw_new ''runtime_error'') \<and>
   reactor_eval Throw (Throw_new ''runtime_error'' :: int Maybe) = Inl ''runtime_error''"
  by (simp add: Throw_def Throw_new_def)

text \<open>
  C3. The claim fails for a lifted function that returns \<open>void\<close>. At
  \<open>lift(f, constant(1))\<close>, where \<open>f\<close> raises \<open>runtime_error\<close>, the commit returns
  \<open>COMPLETE_EVALUATED\<close>, but the exception is not in the value slot and \<open>eval\<close> returns
  without raising: \<open>FunctionEvaluator<void>\<close> captures the exception in a temporary and
  drops it.
\<close>

theorem Lift_void_drops_exception:
  "\<exists>r'. Lift_commit (FunctionEvaluator_void (\<lambda>f c. (Threw ''runtime_error'', f)))
      (StaticCommitHandler_commit [reactor_commit Constant]) 0
      (Lift_new () (1::int) (StaticCommitHandler_new 1) (Value ())) =
    Some (COMPLETE_EVALUATED, r') \<and> m_value r' = Value () \<and> Lift_eval r' = Inr ()"
  by (simp add: Lift_commit_def Lift_invoke_def FunctionEvaluator_void_def Lift_new_def
      Lift_commit_memoize_def Lift_commit_invocation_def Lift_eval_def
      StaticCommitHandler_commit_def StaticCommitHandler_new_def aggregate_def Constant_def
      List.map_filter_simps)



section \<open>Lift: value persistence\<close>

lemma constructors_constructed:
  "constructed FunctionEvaluation_default"
  "constructed (FunctionEvaluation_Maybe m)"
  "constructed (FunctionEvaluation_Type v)"
  "constructed (FunctionEvaluation_optional_Maybe om)"
  "constructed (FunctionEvaluation_optional ov)"
  "constructed (FunctionEvaluation_Maybe_State m s)"
  "constructed (FunctionEvaluation_Type_State v s)"
  "constructed (FunctionEvaluation_optional_Maybe_State om s)"
  "constructed (FunctionEvaluation_optional_State ov s)"
  "FunctionEvaluation_State s = Returned evaluation \<Longrightarrow> constructed evaluation"
  by (auto simp add: constructed_def FunctionEvaluation_default_def FunctionEvaluation_Maybe_def
      FunctionEvaluation_Type_def FunctionEvaluation_optional_Maybe_def
      FunctionEvaluation_optional_def FunctionEvaluation_Maybe_State_def
      FunctionEvaluation_Type_State_def FunctionEvaluation_optional_Maybe_State_def
      FunctionEvaluation_optional_State_def FunctionEvaluation_State_def split: if_splits)

lemma Lift_commit_invocation_value [simp]:
  "m_value (Lift_commit_invocation S invocation r) = m_value r"
  by (simp add: Lift_commit_invocation_def Let_def)

lemma Lift_commit_invocation_no_evaluation:
  assumes "\<not> has_evaluation (m_state (Lift_commit_invocation S invocation r))"
    and "\<not> is_complete (m_state (Lift_commit_invocation S invocation r))"
  shows "\<not> has_evaluation invocation"
  using assms
  by (auto simp add: Lift_commit_invocation_def Let_def split: if_splits)

lemma Lift_invoke_keeps_value:
  assumes "\<And>f c evaluation f'. call f c = (Returned evaluation, f') \<Longrightarrow> constructed evaluation"
    and "Lift_invoke (FunctionEvaluator call) r = Some (invocation, r')"
    and "\<not> has_evaluation invocation"
  shows "m_value r' = m_value r"
proof (cases "call (m_function r) (m_arguments r)")
  case (Pair result f)
  show ?thesis
  proof (cases result)
    case (Returned evaluation)
    with Pair assms(1) have "constructed evaluation" by blast
    moreover from Pair Returned assms(2) have "invocation = fe_state evaluation"
      and "m_value r' = (case fe_value evaluation of Some v \<Rightarrow> v | None \<Rightarrow> m_value r)"
      by (auto simp add: Lift_invoke_Returned)
    ultimately show ?thesis using assms(3) by (auto simp add: constructed_def)
  next
    case (Threw e)
    with Pair assms(2,3) show ?thesis by (auto simp add: Lift_invoke_Threw)
  next
    case Aborted
    with Pair assms(2) show ?thesis by (simp add: Lift_invoke_def FunctionEvaluator_def)
  qed
qed

text \<open>
  A commit that reports neither an evaluation nor completion leaves the value slot as it
  is.
\<close>

lemma Lift_commit_keeps_value:
  assumes "\<And>f c evaluation f'. call f c = (Returned evaluation, f') \<Longrightarrow> constructed evaluation"
    and "Lift_commit (FunctionEvaluator call) handler_commit sequence r = Some (st, r')"
    and "\<not> has_evaluation st" and "\<not> is_complete st"
  shows "m_value r' = m_value r"
proof (cases "sequence = m_previous_sequence r \<or> is_complete (m_state r)")
  case True
  with assms(2) show ?thesis by (simp add: Lift_commit_def)
next
  case False
  obtain S h c where hc: "handler_commit sequence (m_handler r, m_arguments r) = (S, h, c)"
    by (cases "handler_commit sequence (m_handler r, m_arguments r)") auto
  let ?r1 = "r\<lparr>m_handler := h, m_arguments := c\<rparr>"
  show ?thesis
  proof (cases "has_evaluation S \<or> m_has_continuation r \<or> is_complete S \<and> \<not> is_empty S")
    case invoked: True
    from False hc invoked assms(2) obtain invocation r2 where
      inv: "Lift_invoke (FunctionEvaluator call) (?r1\<lparr>m_has_continuation := False\<rparr>) =
        Some (invocation, r2)"
      and res: "(st, r') = Lift_commit_memoize sequence (Lift_commit_invocation S invocation r2)"
      by (auto simp add: Lift_commit_def split: option.splits)
    from res have st: "st = m_state (Lift_commit_invocation S invocation r2)"
      and v: "m_value r' = m_value r2"
      by (auto simp add: Lift_commit_memoize_def Let_def)
    from st assms(3,4) have "\<not> has_evaluation invocation"
      using Lift_commit_invocation_no_evaluation by blast
    with assms(1) inv have "m_value r2 = m_value (?r1\<lparr>m_has_continuation := False\<rparr>)"
      by (rule Lift_invoke_keeps_value)
    with v show ?thesis by simp
  next
    case not_invoked: False
    with False hc assms(2) show ?thesis
      by (auto simp add: Lift_commit_def Lift_commit_memoize_def Let_def)
  qed
qed

text \<open>With the result type \<open>void\<close> no commit writes the value slot.\<close>

lemma Lift_void_commit_keeps_value:
  assumes "Lift_commit (FunctionEvaluator_void call) handler_commit sequence r = Some (st, r')"
  shows "m_value r' = m_value r"
  using assms
  by (auto simp add: Lift_commit_def Lift_invoke_def FunctionEvaluator_void_def Let_def
      Lift_commit_memoize_def
      split: if_splits prod.splits option.splits)

text \<open>
  C9. Value persistence for \<open>Lift\<close>, for a lifted function whose results are built by the
  constructors of \<open>FunctionEvaluation\<close>: if a commit returned a state with the evaluation
  bit and \<open>eval\<close> yields \<open>v\<close>, then after a later commit whose state has neither the
  evaluation bit nor the complete bit the value slot is unchanged and \<open>eval\<close> still
  yields \<open>v\<close>.
\<close>

theorem Lift_value_persistence:
  assumes "\<And>f c evaluation f'. call f c = (Returned evaluation, f') \<Longrightarrow> constructed evaluation"
    and "Lift_commit (FunctionEvaluator call) handler_commit s r = Some (st, r')"
    and "has_evaluation st" and "Lift_eval r' = v"
    and "Lift_commit (FunctionEvaluator call) handler_commit s' r' = Some (st', r'')"
    and "\<not> has_evaluation st'" and "\<not> is_complete st'"
  shows "Lift_eval r'' = v \<and> m_value r'' = m_value r'"
  using Lift_commit_keeps_value [OF assms(1) assms(5) assms(6) assms(7)] assms(4)
  by (simp add: Lift_eval_def)

text \<open>
  The theorem at a \<open>Lift\<close> whose function returns 7 at its first call and nothing from
  then on, over children that report \<open>EVALUATED\<close> at every commit: the second commit
  returns \<open>NONE\<close> and \<open>eval\<close> still yields 7.
\<close>

theorem Lift_value_persistence_witness:
  "Lift_commit
      (FunctionEvaluator (\<lambda>f c.
        (Returned (if f then FunctionEvaluation_default else FunctionEvaluation_Type (7::int)),
         True)))
      (\<lambda>sequence (h, c). (EVALUATED, h, c)) 0 (Lift_new False () () (Value 0)) =
    Some (EVALUATED,
      \<lparr>m_function = True, m_arguments = (), m_handler = (), m_value = Value (7::int),
       m_state = EVALUATED, m_previous_sequence = 0, m_has_continuation = False,
       m_had_evaluation = True\<rparr>) \<and>
   Lift_commit
      (FunctionEvaluator (\<lambda>f c.
        (Returned (if f then FunctionEvaluation_default else FunctionEvaluation_Type (7::int)),
         True)))
      (\<lambda>sequence (h, c). (EVALUATED, h, c)) 1
      \<lparr>m_function = True, m_arguments = (), m_handler = (), m_value = Value (7::int),
       m_state = EVALUATED, m_previous_sequence = 0, m_has_continuation = False,
       m_had_evaluation = True\<rparr> =
    Some (NONE,
      \<lparr>m_function = True, m_arguments = (), m_handler = (), m_value = Value (7::int),
       m_state = NONE, m_previous_sequence = 1, m_has_continuation = False,
       m_had_evaluation = True\<rparr>) \<and>
   Lift_eval
      \<lparr>m_function = True, m_arguments = (), m_handler = (), m_value = Value (7::int),
       m_state = NONE, m_previous_sequence = 1, m_has_continuation = False,
       m_had_evaluation = True\<rparr> = Inr 7"
proof -
  let ?call = "\<lambda>(f :: bool) (c :: unit).
    (Returned (if f then FunctionEvaluation_default else FunctionEvaluation_Type (7::int)), True)"
  let ?H = "\<lambda>(sequence :: int) (h :: unit, c :: unit). (EVALUATED, h, c)"
  let ?R1 = "\<lparr>m_function = True, m_arguments = (), m_handler = (), m_value = Value (7::int),
       m_state = EVALUATED, m_previous_sequence = 0, m_has_continuation = False,
       m_had_evaluation = True\<rparr>"
  let ?R2 = "\<lparr>m_function = True, m_arguments = (), m_handler = (), m_value = Value (7::int),
       m_state = NONE, m_previous_sequence = 1, m_has_continuation = False,
       m_had_evaluation = True\<rparr>"
  have built: "\<And>f c evaluation f'. ?call f c = (Returned evaluation, f') \<Longrightarrow>
      constructed evaluation"
    by (auto simp add: constructors_constructed)
  have first: "Lift_commit (FunctionEvaluator ?call) ?H 0 (Lift_new False () () (Value 0)) =
      Some (EVALUATED, ?R1)"
    by (simp add: Lift_commit_def Lift_invoke_def FunctionEvaluator_def Lift_new_def
        FunctionEvaluation_Type_def FunctionEvaluation_Maybe_def Lift_commit_memoize_def
        Lift_commit_invocation_def)
  have second: "Lift_commit (FunctionEvaluator ?call) ?H 1 ?R1 = Some (NONE, ?R2)"
    by (simp add: Lift_commit_def Lift_invoke_def FunctionEvaluator_def
        FunctionEvaluation_default_def Lift_commit_memoize_def Lift_commit_invocation_def)
  have "Lift_eval ?R1 = Inr 7" by (simp add: Lift_eval_def)
  with Lift_value_persistence [of ?call ?H 0 "Lift_new False () () (Value 0)" EVALUATED ?R1
      "Inr 7" 1 NONE ?R2, OF built first _ _ second]
  have "Lift_eval ?R2 = Inr 7" by simp
  with first second show ?thesis by (intro conjI)
qed


section \<open>FunctionEvaluation: the assertion of the constructor from a state\<close>

lemma Lift_commit_returns:
  assumes "\<And>value f c. fst (evaluator value f c) \<noteq> Aborted"
  shows "Lift_commit evaluator handler_commit sequence r \<noteq> None"
proof -
  have inv: "(Lift_invoke evaluator x = None) = False" for x
    using assms [of "m_value x" "m_function x" "m_arguments x"]
    by (auto simp add: Lift_invoke_def split: prod.splits outcome.splits)
  show ?thesis
    by (simp add: Lift_commit_def Let_def inv split: prod.split option.split)
qed

lemma range_function_returns:
  "fst (range_function value start start_state stop end_state step step_state ignored) \<noteq>
    Aborted"
  by (simp add: range_function_def FunctionEvaluation_State_def Let_def
      split: sum.split)

text \<open>
  C10. The constructor of \<open>FunctionEvaluation\<close> from a bare state fails its assertion
  exactly when the state has the evaluation bit, for \<open>FunctionEvaluation<T>\<close> and for
  \<open>FunctionEvaluation<void>\<close>. The two states \<open>range\<close> passes to it, \<open>COMPLETE\<close> and
  \<open>NONE\<close>, have no evaluation bit: the function lifted by \<open>range\<close> never fails the
  assertion, whatever its arguments, and no commit of a \<open>range\<close> reactor is ended by it.
\<close>

theorem FunctionEvaluation_State_assertion:
  "((FunctionEvaluation_State s :: 'a FunctionEvaluation outcome) = Aborted) =
      has_evaluation s \<and>
   (FunctionEvaluation_void_State s = Aborted) = has_evaluation s \<and>
   (FunctionEvaluation_State COMPLETE :: 'a FunctionEvaluation outcome) =
      Returned \<lparr>fe_value = None, fe_state = COMPLETE\<rparr> \<and>
   (FunctionEvaluation_State NONE :: 'a FunctionEvaluation outcome) =
      Returned \<lparr>fe_value = None, fe_state = NONE\<rparr> \<and>
   fst (range_function value start start_state stop end_state step step_state ignored) \<noteq>
      Aborted \<and>
   range_commit start_reactor_type stop_reactor_type step_reactor_type sequence r \<noteq> None"
proof -
  have rc: "fst (range_call start_reactor_type stop_reactor_type step_reactor_type f c) \<noteq>
      Aborted" for f c
    by (simp add: range_call_def range_function_returns)
  have "fst (FunctionEvaluator (range_call start_reactor_type stop_reactor_type
      step_reactor_type) v f c) \<noteq> Aborted" for v f c
    using rc [of f c]
    by (cases "range_call start_reactor_type stop_reactor_type step_reactor_type f c")
      (auto simp add: FunctionEvaluator_def split: outcome.splits)
  then have "range_commit start_reactor_type stop_reactor_type step_reactor_type sequence r \<noteq>
      None"
    unfolding range_commit_def by (rule Lift_commit_returns)
  then show ?thesis
    by (simp add: FunctionEvaluation_State_def FunctionEvaluation_void_State_def
        range_function_returns)
qed



section \<open>Until: termination by the condition\<close>

lemma Until_commit_fresh:
  assumes "sequence \<noteq> u_previous_sequence r" and "\<not> is_complete (u_state r)"
  shows "Until_commit C T sequence r =
    (u_state (Until_commit_series T sequence (Until_commit_condition C sequence r)),
     (Until_commit_series T sequence (Until_commit_condition C sequence r))
       \<lparr>u_previous_sequence := sequence\<rparr>)"
  using assms by (simp add: Until_commit_def Let_def)

lemma Until_commit_condition_terminates:
  assumes "\<not> is_complete (u_condition_state r)"
    and "reactor_commit C sequence (u_condition r) = (condition_state, c)"
    and "has_evaluation condition_state \<or>
      is_empty (u_condition_state r) \<and> \<not> is_empty condition_state"
    and "reactor_eval C c = Inr True"
  shows "Until_commit_condition C sequence r =
    r\<lparr>u_condition := c, u_series := None,
      u_state := (if is_empty (u_state r) then COMPLETE_EMPTY else COMPLETE),
      u_condition_state := condition_state\<rparr>"
  using assms by (auto simp add: Until_commit_condition_def Let_def)

lemma Until_commit_series_destroyed:
  "u_series r = None \<Longrightarrow> Until_commit_series T sequence r = r"
  by (simp add: Until_commit_series_def)

text \<open>
  What the code does when the condition yields a truthy evaluation: the series is
  destroyed, the state is \<open>COMPLETE_EMPTY\<close> if the stored state of \<open>Until\<close> is empty and
  \<open>COMPLETE\<close> otherwise, and every later commit returns that state and commits nothing.
\<close>

lemma Until_terminates:
  assumes "sequence \<noteq> u_previous_sequence r" and "\<not> is_complete (u_state r)"
    and "\<not> is_complete (u_condition_state r)"
    and "reactor_commit C sequence (u_condition r) = (condition_state, c)"
    and "has_evaluation condition_state \<or>
      is_empty (u_condition_state r) \<and> \<not> is_empty condition_state"
    and "reactor_eval C c = Inr True"
  shows "\<exists>r'. Until_commit C T sequence r =
      (if is_empty (u_state r) then COMPLETE_EMPTY else COMPLETE, r') \<and>
    u_series r' = None \<and>
    (\<forall>s. Until_commit C T s r' =
      (if is_empty (u_state r) then COMPLETE_EMPTY else COMPLETE, r'))"
proof -
  let ?st = "if is_empty (u_state r) then COMPLETE_EMPTY else COMPLETE"
  let ?r' = "r\<lparr>u_condition := c, u_series := None, u_state := ?st,
    u_condition_state := condition_state, u_previous_sequence := sequence\<rparr>"
  have first: "Until_commit C T sequence r = (?st, ?r')"
    by (simp add: Until_commit_fresh [OF assms(1,2)]
        Until_commit_condition_terminates [OF assms(3-6)] Until_commit_series_destroyed)
  have "is_complete (u_state ?r')" by simp
  then have later: "\<forall>s. Until_commit C T s ?r' = (?st, ?r')"
    by (simp add: Until_commit_def)
  have "u_series ?r' = None" by simp
  with first later show ?thesis by blast
qed

text \<open>The empty marker of the stored state along a history.\<close>

lemma Until_commit_condition_cases:
  "u_series (Until_commit_condition C sequence r) = None \<or>
   u_state (Until_commit_condition C sequence r) = u_state r \<and>
   u_series (Until_commit_condition C sequence r) = u_series r"
  by (simp add: Until_commit_condition_def Let_def split: prod.split sum.split)

lemma Until_commit_condition_keeps_state:
  assumes "u_series (Until_commit_condition C sequence r) = Some series"
  shows "u_state (Until_commit_condition C sequence r) = u_state r"
  using assms Until_commit_condition_cases [of C sequence r] by auto

lemma Until_commit_series_nonempty:
  assumes "\<not> is_empty (u_state r)"
  shows "\<not> is_empty (u_state (Until_commit_series T sequence r))"
  using assms
  by (simp add: Until_commit_series_def Let_def split: option.split prod.split)

lemma Until_commit_condition_nonempty:
  assumes "\<not> is_empty (u_state r)"
  shows "\<not> is_empty (u_state (Until_commit_condition C sequence r))"
  using assms
  by (simp add: Until_commit_condition_def Let_def split: prod.split sum.split)

lemma Until_commit_nonempty:
  assumes "Until_commit C T sequence r = (st, r')" and "\<not> is_empty (u_state r)"
  shows "\<not> is_empty (u_state r')"
proof (cases "sequence = u_previous_sequence r \<or> is_complete (u_state r)")
  case True
  with assms show ?thesis by (simp add: Until_commit_def)
next
  case False
  then have "r' = (Until_commit_series T sequence (Until_commit_condition C sequence r))
      \<lparr>u_previous_sequence := sequence\<rparr>"
    using assms(1) by (simp add: Until_commit_fresh)
  then show ?thesis
    using assms(2) by (simp add: Until_commit_series_nonempty Until_commit_condition_nonempty)
qed


lemma Until_commit_condition_state:
  "u_state (Until_commit_condition C sequence r) = u_state r \<or>
   u_state (Until_commit_condition C sequence r) = COMPLETE \<or>
   u_state (Until_commit_condition C sequence r) = COMPLETE_EMPTY"
  by (simp add: Until_commit_condition_def Let_def split: prod.split sum.split)

lemma Until_commit_series_signalled:
  assumes "signalled (u_state r) \<longrightarrow> \<not> is_empty (u_state r)"
  shows "signalled (u_state (Until_commit_series T sequence r)) \<longrightarrow>
    \<not> is_empty (u_state (Until_commit_series T sequence r))"
  using assms
  by (simp add: Until_commit_series_def Let_def signalled_def split: option.split prod.split)

lemma Until_commit_signalled:
  assumes "Until_commit C T sequence r = (st, r')"
    and "signalled (u_state r) \<longrightarrow> \<not> is_empty (u_state r)"
  shows "signalled (u_state r') \<longrightarrow> \<not> is_empty (u_state r')"
proof (cases "sequence = u_previous_sequence r \<or> is_complete (u_state r)")
  case True
  with assms show ?thesis by (simp add: Until_commit_def)
next
  case False
  then have r': "r' = (Until_commit_series T sequence (Until_commit_condition C sequence r))
      \<lparr>u_previous_sequence := sequence\<rparr>"
    using assms(1) by (simp add: Until_commit_fresh)
  have "signalled (u_state (Until_commit_condition C sequence r)) \<longrightarrow>
      \<not> is_empty (u_state (Until_commit_condition C sequence r))"
    using Until_commit_condition_state [of C sequence r] assms(2)
    by (auto simp add: signalled_def)
  then show ?thesis
    using Until_commit_series_signalled by (simp add: r')
qed

lemma Until_commit_condition_not_terminated:
  assumes "\<not> is_complete (u_state (Until_commit_condition C sequence r))"
  shows "u_state (Until_commit_condition C sequence r) = u_state r"
  using assms Until_commit_condition_state [of C sequence r] by auto

lemma Until_commit_series_silent:
  assumes "is_empty (u_state r)"
    and "\<not> signalled (u_state (Until_commit_series T sequence r))"
    and "\<not> is_complete (u_state (Until_commit_series T sequence r))"
  shows "is_empty (u_state (Until_commit_series T sequence r))"
proof (cases "u_series r")
  case None
  with assms(1) show ?thesis by (simp add: Until_commit_series_def)
next
  case (Some series)
  obtain series_state series' where c: "reactor_commit T sequence series = (series_state, series')"
    by (cases "reactor_commit T sequence series") auto
  show ?thesis
    using assms
    by (auto simp add: Until_commit_series_def Let_def signalled_def Some c split: if_splits)
qed

lemma Until_commit_silent:
  assumes "Until_commit C T sequence r = (st, r')"
    and "is_empty (u_state r)" and "\<not> signalled st" and "\<not> is_complete st"
  shows "is_empty (u_state r')"
proof (cases "sequence = u_previous_sequence r \<or> is_complete (u_state r)")
  case True
  with assms show ?thesis by (simp add: Until_commit_def)
next
  case False
  let ?r1 = "Until_commit_condition C sequence r"
  from False assms(1) have r': "r' = (Until_commit_series T sequence ?r1)
      \<lparr>u_previous_sequence := sequence\<rparr>"
    and st: "st = u_state (Until_commit_series T sequence ?r1)"
    by (simp_all add: Until_commit_fresh)
  have "is_empty (u_state (Until_commit_series T sequence ?r1))"
  proof (cases "u_series ?r1")
    case None
    then have same: "Until_commit_series T sequence ?r1 = ?r1"
      by (rule Until_commit_series_destroyed)
    with assms(4) st have "\<not> is_complete (u_state ?r1)" by simp
    then have "u_state ?r1 = u_state r" by (rule Until_commit_condition_not_terminated)
    with assms(2) same show ?thesis by simp
  next
    case (Some series)
    then have "u_state ?r1 = u_state r" by (rule Until_commit_condition_keeps_state)
    with assms(2) have "is_empty (u_state ?r1)" by simp
    then show ?thesis
      using assms(3,4) st Until_commit_series_silent by blast
  qed
  then show ?thesis by (simp add: r')
qed

lemma Until_run_complete:
  assumes "is_complete (u_state r)"
  shows "Until_run C T sequences r = (replicate (length sequences) (u_state r), r)"
  using assms by (induction sequences) (simp_all add: Until_commit_def)

lemma Until_run_signalled:
  assumes "Until_run C T sequences r = (states, r')"
    and "signalled (u_state r) \<longrightarrow> \<not> is_empty (u_state r)"
    and "list_ex signalled states"
  shows "\<not> is_empty (u_state r')"
  using assms
proof (induction sequences arbitrary: r states)
  case Nil
  then show ?case by simp
next
  case (Cons sequence rest)
  obtain st r1 where c: "Until_commit C T sequence r = (st, r1)"
    by (cases "Until_commit C T sequence r") auto
  obtain sts where run: "Until_run C T rest r1 = (sts, r')" and states: "states = st # sts"
    using Cons.prems(1) c by (auto split: prod.splits)
  have j: "signalled (u_state r1) \<longrightarrow> \<not> is_empty (u_state r1)"
    using Until_commit_signalled [OF c Cons.prems(2)] .
  show ?case
  proof (cases "signalled st")
    case True
    then have ne: "\<not> is_empty (u_state r1)"
      using j Until_commit_returns_state [OF c] by simp
    have "\<not> is_empty (u_state x') " if "Until_run C T xs x = (ys, x')" "\<not> is_empty (u_state x)"
      for xs x ys x'
      using that
    proof (induction xs arbitrary: x ys)
      case Nil
      then show ?case by simp
    next
      case (Cons a xs)
      obtain st2 x2 where c2: "Until_commit C T a x = (st2, x2)"
        by (cases "Until_commit C T a x") auto
      then obtain zs where "Until_run C T xs x2 = (zs, x')"
        using Cons.prems(1) by (auto split: prod.splits)
      moreover have "\<not> is_empty (u_state x2)"
        using Until_commit_nonempty [OF c2 Cons.prems(2)] .
      ultimately show ?case using Cons.IH by blast
    qed
    with run ne show ?thesis by blast
  next
    case False
    with Cons.prems(3) states have "list_ex signalled sts" by simp
    with Cons.IH [OF run j] show ?thesis by blast
  qed
qed

lemma Until_run_silent:
  assumes "Until_run C T sequences r = (states, r')"
    and "is_empty (u_state r)" and "\<not> is_complete (u_state r')"
    and "\<not> list_ex signalled states"
  shows "is_empty (u_state r')"
  using assms
proof (induction sequences arbitrary: r states)
  case Nil
  then show ?case by simp
next
  case (Cons sequence rest)
  obtain st r1 where c: "Until_commit C T sequence r = (st, r1)"
    by (cases "Until_commit C T sequence r") auto
  obtain sts where run: "Until_run C T rest r1 = (sts, r')" and states: "states = st # sts"
    using Cons.prems(1) c by (auto split: prod.splits)
  have st: "st = u_state r1" using Until_commit_returns_state [OF c] .
  have "\<not> is_complete st"
  proof
    assume "is_complete st"
    then have "is_complete (u_state r1)" using st by simp
    from Until_run_complete [OF this, of C T rest] run have "r' = r1" by simp
    with \<open>is_complete (u_state r1)\<close> Cons.prems(3) show False by simp
  qed
  moreover have "\<not> signalled st" using Cons.prems(4) states by simp
  ultimately have "is_empty (u_state r1)"
    using Until_commit_silent [OF c Cons.prems(2)] by blast
  moreover have "\<not> list_ex signalled sts" using Cons.prems(4) states by simp
  ultimately show ?case using Cons.IH [OF run _ Cons.prems(3)] by blast
qed

text \<open>
  What the code does along a history: let an \<open>Until\<close> have any history of commits since
  its construction, and let it not be complete. On a commit with a new sequence number at
  which the condition, not complete so far, yields a new evaluation that is truthy, the
  series is destroyed and every later commit returns the same state and commits nothing.
  The state is \<open>COMPLETE_EMPTY\<close> only if no earlier commit reported an evaluation or a
  continuation: a continuation alone clears the empty marker of the stored state.
\<close>

lemma Until_terminates_after_run:
  assumes "Until_run C T sequences (Until_new condition series initial) = (states, r)"
    and "sequence \<noteq> u_previous_sequence r" and "\<not> is_complete (u_state r)"
    and "\<not> is_complete (u_condition_state r)"
    and "reactor_commit C sequence (u_condition r) = (condition_state, c)"
    and "has_evaluation condition_state \<or>
      is_empty (u_condition_state r) \<and> \<not> is_empty condition_state"
    and "reactor_eval C c = Inr True"
  shows "\<exists>r'. Until_commit C T sequence r =
      (if list_ex has_evaluation states \<or> list_ex has_continuation states then COMPLETE
       else COMPLETE_EMPTY, r') \<and>
    u_series r' = None \<and>
    (\<forall>s. Until_commit C T s r' =
      (if list_ex has_evaluation states \<or> list_ex has_continuation states then COMPLETE
       else COMPLETE_EMPTY, r'))"
proof -
  have s: "(list_ex has_evaluation states \<or> list_ex has_continuation states) =
      list_ex signalled states"
    by (induction states) (auto simp add: signalled_def)
  have new: "is_empty (u_state (Until_new condition series initial))"
    "signalled (u_state (Until_new condition series initial)) \<longrightarrow>
      \<not> is_empty (u_state (Until_new condition series initial))"
    by (simp_all add: Until_new_def signalled_def)
  have "is_empty (u_state r) = (\<not> list_ex signalled states)"
    using Until_run_signalled [OF assms(1) new(2)]
      Until_run_silent [OF assms(1) new(1) assms(3)] by blast
  then have st: "(if is_empty (u_state r) then COMPLETE_EMPTY else COMPLETE) =
      (if list_ex has_evaluation states \<or> list_ex has_continuation states then COMPLETE
       else COMPLETE_EMPTY)"
    by (simp add: s)
  show ?thesis
    using Until_terminates [OF assms(2-7), of T] unfolding st .
qed

text \<open>
  The sibling: a \<open>Lift\<close> decides between \<open>COMPLETE\<close> and \<open>COMPLETE_EMPTY\<close> by
  \<open>m_had_evaluation\<close>, which only an evaluation sets. A \<open>Lift\<close> whose first commit reports
  \<open>CONTINUE\<close> without a value and whose children then complete ends \<open>COMPLETE_EMPTY\<close>.
\<close>

lemma Lift_complete_empty_after_continuation:
  "map_option fst (Lift_commit
      (FunctionEvaluator (\<lambda>f c. (FunctionEvaluation_State NONE, f)))
      (\<lambda>sequence (h, c). (if sequence = 0 then CONTINUE_EVALUATED else COMPLETE_EVALUATED, h, c))
      0 (Lift_new () () () (Value (0::int)))) = Some CONTINUE \<and>
   map_option fst (Lift_commit
      (FunctionEvaluator (\<lambda>f c. (FunctionEvaluation_State NONE, f)))
      (\<lambda>sequence (h, c). (if sequence = 0 then CONTINUE_EVALUATED else COMPLETE_EVALUATED, h, c))
      1 (snd (the (Lift_commit
        (FunctionEvaluator (\<lambda>f c. (FunctionEvaluation_State NONE, f)))
        (\<lambda>sequence (h, c).
          (if sequence = 0 then CONTINUE_EVALUATED else COMPLETE_EVALUATED, h, c))
        0 (Lift_new () () () (Value (0::int))))))) = Some COMPLETE_EMPTY"
  by (simp add: Lift_commit_def Lift_invoke_def FunctionEvaluator_def Lift_new_def
      FunctionEvaluation_State_def Lift_commit_memoize_def Lift_commit_invocation_def)



section \<open>Until: the state while the series remains\<close>

lemma Until_commit_series_present:
  assumes "u_series r = Some series"
    and "reactor_commit T sequence series = (series_state, series')"
    and "\<not> is_complete (u_state r)"
  shows "u_series (Until_commit_series T sequence r) = Some series'"
    and "is_complete (u_state (Until_commit_series T sequence r)) = is_complete series_state"
    and "has_continuation (u_state (Until_commit_series T sequence r)) =
      (\<not> is_complete series_state \<and>
        (has_continuation (u_condition_state r) \<or> has_continuation series_state))"
    and "has_evaluation (u_state (Until_commit_series T sequence r)) =
      (has_evaluation series_state \<or> is_empty (u_state r) \<and> \<not> is_empty series_state)"
    and "u_value (Until_commit_series T sequence r) =
      (if has_evaluation series_state \<or> is_empty (u_state r) \<and> \<not> is_empty series_state
       then try_call (reactor_eval T series') else u_value r)"
    and "u_condition_state (Until_commit_series T sequence r) = u_condition_state r"
  using assms by (auto simp add: Until_commit_series_def Let_def)

text \<open>
  C5. On a commit of \<open>Until\<close> that is not answered from the memo, where the series still
  exists after the condition was handled: the complete bit of the returned state is that
  of the series' state; the continuation bit is set exactly when the series is not
  complete and the latest state of the condition or the state of the series has the
  continuation bit; and when the series' commit has an evaluation, the returned state has
  the evaluation bit and the value of \<open>Until\<close> is the series' evaluation.
\<close>

theorem Until_commit_series_state:
  assumes "sequence \<noteq> u_previous_sequence r" and "\<not> is_complete (u_state r)"
    and "u_series (Until_commit_condition C sequence r) = Some series"
    and "reactor_commit T sequence series = (series_state, series')"
    and "Until_commit C T sequence r = (st, r')"
  shows "is_complete st = is_complete series_state \<and>
    has_continuation st = (\<not> is_complete series_state \<and>
      (has_continuation (u_condition_state r') \<or> has_continuation series_state)) \<and>
    (has_evaluation series_state \<longrightarrow>
      has_evaluation st \<and> u_value r' = try_call (reactor_eval T series'))"
proof -
  define r1 where "r1 = Until_commit_condition C sequence r"
  define r2 where "r2 = Until_commit_series T sequence r1"
  have nc: "\<not> is_complete (u_state r1)"
    using assms(2) Until_commit_condition_keeps_state [OF assms(3)] by (simp add: r1_def)
  have ser: "u_series r1 = Some series" using assms(3) by (simp add: r1_def)
  note s = Until_commit_series_present [OF ser assms(4) nc, folded r2_def]
  have "Until_commit C T sequence r = (u_state r2, r2\<lparr>u_previous_sequence := sequence\<rparr>)"
    unfolding r2_def r1_def by (rule Until_commit_fresh [OF assms(1,2)])
  with assms(5) have r': "r' = r2\<lparr>u_previous_sequence := sequence\<rparr>" and st: "st = u_state r2"
    by simp_all
  have 1: "is_complete st = is_complete series_state" by (simp add: st s(2))
  have 2: "has_continuation st = (\<not> is_complete series_state \<and>
      (has_continuation (u_condition_state r') \<or> has_continuation series_state))"
    by (simp add: st r' s)
  have 3: "has_evaluation series_state \<longrightarrow>
      has_evaluation st \<and> u_value r' = try_call (reactor_eval T series')"
    by (simp add: st r' s)
  from 1 2 3 show ?thesis by blast
qed

text \<open>
  The theorem at an \<open>Until\<close> whose condition reports \<open>CONTINUE_EVALUATED\<close> with a false
  value and whose series reports \<open>EVALUATED\<close> with the value 7.
\<close>

theorem Until_commit_series_state_witness:
  "Until_commit Scripted Scripted 0
      (Until_new (Scripted_new [(CONTINUE_EVALUATED, Inr False)])
        (Scripted_new [(EVALUATED, Inr (7::int))]) (Value 0)) =
    (CONTINUE_EVALUATED,
      \<lparr>u_condition =
         \<lparr>script = [], reported = CONTINUE_EVALUATED, current = Inr False, committed = 0\<rparr>,
       u_series = Some
         \<lparr>script = [], reported = EVALUATED, current = Inr (7::int), committed = 0\<rparr>,
       u_value = Value (7::int), u_condition_state = CONTINUE_EVALUATED,
       u_state = CONTINUE_EVALUATED, u_previous_sequence = 0\<rparr>) \<and>
   is_complete CONTINUE_EVALUATED = is_complete EVALUATED \<and>
   has_continuation CONTINUE_EVALUATED =
     (\<not> is_complete EVALUATED \<and>
       (has_continuation CONTINUE_EVALUATED \<or> has_continuation EVALUATED)) \<and>
   has_evaluation CONTINUE_EVALUATED \<and>
   Value (7::int) = try_call (reactor_eval Scripted
     \<lparr>script = [], reported = EVALUATED, current = Inr (7::int), committed = 0\<rparr>)"
proof -
  let ?U0 = "Until_new (Scripted_new [(CONTINUE_EVALUATED, Inr False)])
        (Scripted_new [(EVALUATED, Inr (7::int))]) (Value 0)"
  let ?S = "\<lparr>script = [], reported = EVALUATED, current = Inr (7::int), committed = 0\<rparr>"
  let ?U1 = "\<lparr>u_condition =
         \<lparr>script = [], reported = CONTINUE_EVALUATED, current = Inr False, committed = 0\<rparr>,
       u_series = Some ?S,
       u_value = Value (7::int), u_condition_state = CONTINUE_EVALUATED,
       u_state = CONTINUE_EVALUATED, u_previous_sequence = 0\<rparr>"
  have fresh: "0 \<noteq> u_previous_sequence ?U0" "\<not> is_complete (u_state ?U0)"
    by (simp_all add: Until_new_def)
  have remains: "u_series (Until_commit_condition Scripted 0 ?U0) =
      Some (Scripted_new [(EVALUATED, Inr (7::int))])"
    by (simp add: Until_commit_condition_def Until_new_def Scripted_new_def Scripted_def)
  have series: "reactor_commit Scripted 0 (Scripted_new [(EVALUATED, Inr (7::int))]) =
      (EVALUATED, ?S)"
    by (simp add: Scripted_new_def Scripted_def)
  have commit: "Until_commit Scripted Scripted 0 ?U0 = (CONTINUE_EVALUATED, ?U1)"
    by (simp add: Until_commit_def Until_commit_condition_def Until_commit_series_def
        Until_new_def Scripted_new_def Scripted_def)
  from Until_commit_series_state [OF fresh remains series commit] commit
  show ?thesis by simp
qed

text \<open>
  The claim as stated fails where the series completes: the condition reports
  \<open>CONTINUE_EVALUATED\<close> and does not terminate, the series reports
  \<open>COMPLETE_EVALUATED\<close> and still exists, and the returned state
  \<open>COMPLETE_EVALUATED\<close> has no continuation bit.
\<close>

theorem Until_commit_series_state_counterexample:
  "fst (Until_commit Scripted Scripted 0
      (Until_new (Scripted_new [(CONTINUE_EVALUATED, Inr False)])
        (Scripted_new [(COMPLETE_EVALUATED, Inr (7::int))]) (Value 0))) =
    COMPLETE_EVALUATED \<and>
   u_condition_state (snd (Until_commit Scripted Scripted 0
      (Until_new (Scripted_new [(CONTINUE_EVALUATED, Inr False)])
        (Scripted_new [(COMPLETE_EVALUATED, Inr (7::int))]) (Value 0)))) =
    CONTINUE_EVALUATED \<and>
   u_series (snd (Until_commit Scripted Scripted 0
      (Until_new (Scripted_new [(CONTINUE_EVALUATED, Inr False)])
        (Scripted_new [(COMPLETE_EVALUATED, Inr (7::int))]) (Value 0)))) \<noteq> None \<and>
   has_continuation CONTINUE_EVALUATED \<and>
   \<not> has_continuation COMPLETE_EVALUATED"
  by (simp add: Until_commit_def Until_commit_condition_def Until_commit_series_def
      Until_new_def Scripted_new_def Scripted_def)


section \<open>Until: an error of the condition\<close>

text \<open>
  What the code does when reading the condition raises: the error is stored in the value
  slot and the state is not touched.
\<close>

lemma Until_commit_condition_raises:
  assumes "\<not> is_complete (u_condition_state r)"
    and "reactor_commit C sequence (u_condition r) = (condition_state, c)"
    and "has_evaluation condition_state \<or>
      is_empty (u_condition_state r) \<and> \<not> is_empty condition_state"
    and "reactor_eval C c = Inl e"
  shows "Until_commit_condition C sequence r =
    r\<lparr>u_condition := c, u_value := Exception e, u_condition_state := condition_state\<rparr>"
  using assms by (auto simp add: Until_commit_condition_def Let_def)

text \<open>
  C8. The claim fails. The condition reports \<open>EVALUATED\<close> and its \<open>eval\<close> raises. With a
  series that reports \<open>EMPTY\<close>, the commit returns \<open>EMPTY\<close>: the error is in the value
  slot, but the state has no evaluation bit. With a series that reports \<open>EVALUATED\<close> with
  the value 7, the commit returns \<open>EVALUATED\<close>, but the error is overwritten by the
  series' value and \<open>eval\<close> returns 7.
\<close>

theorem Until_condition_error_not_reported:
  "fst (Until_commit Scripted Scripted 0
      (Until_new (Scripted_new [(EVALUATED, Inl ''error'')])
        (Scripted_new [(EMPTY, Inl ''no value'')]) (Value (0::int)))) = EMPTY \<and>
   \<not> has_evaluation EMPTY \<and>
   u_value (snd (Until_commit Scripted Scripted 0
      (Until_new (Scripted_new [(EVALUATED, Inl ''error'')])
        (Scripted_new [(EMPTY, Inl ''no value'')]) (Value (0::int))))) = Exception ''error'' \<and>
   fst (Until_commit Scripted Scripted 0
      (Until_new (Scripted_new [(EVALUATED, Inl ''error'')])
        (Scripted_new [(EVALUATED, Inr 7)]) (Value (0::int)))) = EVALUATED \<and>
   Until_eval (snd (Until_commit Scripted Scripted 0
      (Until_new (Scripted_new [(EVALUATED, Inl ''error'')])
        (Scripted_new [(EVALUATED, Inr 7)]) (Value (0::int))))) = Inr 7"
  by (simp add: Until_commit_def Until_commit_condition_def Until_commit_series_def
      Until_new_def Scripted_new_def Scripted_def Until_eval_def)



section \<open>The commit handler of range\<close>

lemma commit_children_append:
  "commit_children (xs @ ys) sequence c =
    (case commit_children xs sequence c of (s1, c1) \<Rightarrow>
      (case commit_children ys sequence c1 of (s2, c2) \<Rightarrow> (s1 @ s2, c2)))"
  by (induction xs arbitrary: c) (auto split: prod.splits)

lemma length_commit_children:
  "commit_children xs sequence c = (states, c') \<Longrightarrow> length states = length xs"
  by (induction xs sequence c arbitrary: states c' rule: commit_children.induct)
    (auto split: if_splits prod.splits)

lemma map_filter_append:
  "List.map_filter f (xs @ ys) = List.map_filter f xs @ List.map_filter f ys"
  by (simp add: List.map_filter_def)

text \<open>
  A last child that reports \<open>CONTINUE_EVALUATED\<close> makes the composite state
  \<open>CONTINUE_EVALUATED\<close>, whatever the other children report.
\<close>

lemma aggregate_last_continue_evaluated:
  assumes "length previous = length states"
  shows "aggregate (previous @ [latest]) (states @ [Some CONTINUE_EVALUATED]) =
    CONTINUE_EVALUATED"
  using assms
  by (simp add: aggregate_def map_filter_append Let_def)

lemma StaticCommitHandler_commit_last_perpetual:
  assumes "h_children h = previous @ [latest]" and "length children = length previous"
    and "\<not> is_complete latest" and "sequence \<noteq> h_previous_sequence h"
    and "\<And>c. perpetual sequence c = (CONTINUE_EVALUATED, c)"
  shows "\<exists>states c'. commit_children (zip children previous) sequence c = (states, c') \<and>
    StaticCommitHandler_commit (children @ [perpetual]) sequence (h, c) =
      (CONTINUE_EVALUATED,
       \<lparr>h_children = map latest_state (zip previous states) @ [CONTINUE_EVALUATED],
        h_state = CONTINUE_EVALUATED, h_previous_sequence = sequence\<rparr>, c')"
proof -
  obtain states c' where cc: "commit_children (zip children previous) sequence c = (states, c')"
    by (cases "commit_children (zip children previous) sequence c") auto
  then have len: "length states = length previous"
    using length_commit_children [OF cc] assms(2) by simp
  have z: "zip (children @ [perpetual]) (previous @ [latest]) =
      zip children previous @ [(perpetual, latest)]"
    using assms(2) by simp
  have all: "commit_children (zip (children @ [perpetual]) (h_children h)) sequence c =
      (states @ [Some CONTINUE_EVALUATED], c')"
    using assms(3,5) by (simp add: assms(1) z commit_children_append cc)
  have "StaticCommitHandler_commit (children @ [perpetual]) sequence (h, c) =
      (CONTINUE_EVALUATED,
       \<lparr>h_children = map latest_state (zip previous states) @ [CONTINUE_EVALUATED],
        h_state = CONTINUE_EVALUATED, h_previous_sequence = sequence\<rparr>, c')"
    using assms(4) len
    by (simp add: StaticCommitHandler_commit_def all Let_def)
      (simp add: assms(1) aggregate_last_continue_evaluated)
  with cc show ?thesis by blast
qed

lemma range_children_perpetual:
  "\<exists>children. range_children start stop step =
      children @ [\<lambda>sequence a. (CONTINUE_EVALUATED, a)] \<and> length children = 6"
  by (simp add: range_children_def Perpetual_def)

lemma list_of_length_7:
  assumes "length xs = 7"
  shows "\<exists>previous. xs = previous @ [xs ! 6] \<and> length previous = 6"
proof -
  have "6 < length xs" using assms by simp
  then have "take (Suc 6) xs = take 6 xs @ [xs ! 6]" by (rule take_Suc_conv_app_nth)
  moreover have "take (Suc 6) xs = xs" using assms by simp
  moreover have "length (take 6 xs) = 6" using assms by simp
  ultimately show ?thesis by metis
qed

text \<open>
  Every commit of the handler with a new sequence commits \<open>perpetual()\<close>, and the
  composite state is \<open>CONTINUE_EVALUATED\<close>.
\<close>

lemma range_handler_commit:
  assumes "length (h_children h) = 7" and "\<not> is_complete (h_children h ! 6)"
    and "sequence \<noteq> h_previous_sequence h"
  shows "\<exists>h' a'. StaticCommitHandler_commit (range_children start stop step) sequence (h, a) =
      (CONTINUE_EVALUATED, h', a') \<and>
    length (h_children h') = 7 \<and> h_children h' ! 6 = CONTINUE_EVALUATED \<and>
    h_previous_sequence h' = sequence"
proof -
  obtain previous where p: "h_children h = previous @ [h_children h ! 6]"
    and lp: "length previous = 6"
    using list_of_length_7 [OF assms(1)] by blast
  obtain children where c: "range_children start stop step =
      children @ [\<lambda>sequence a. (CONTINUE_EVALUATED, a)]" and lc: "length children = 6"
    using range_children_perpetual by blast
  from lp lc have l: "length children = length previous" by simp
  obtain states a' where cc: "commit_children (zip children previous) sequence a = (states, a')"
    and hc: "StaticCommitHandler_commit (children @ [\<lambda>sequence a. (CONTINUE_EVALUATED, a)])
      sequence (h, a) =
      (CONTINUE_EVALUATED,
       \<lparr>h_children = map latest_state (zip previous states) @ [CONTINUE_EVALUATED],
        h_state = CONTINUE_EVALUATED, h_previous_sequence = sequence\<rparr>, a')"
    using StaticCommitHandler_commit_last_perpetual [OF p l assms(2) assms(3), of
        "\<lambda>sequence a. (CONTINUE_EVALUATED, a)" a]
    by auto
  have ls: "length states = 6" using length_commit_children [OF cc] l lp by simp
  show ?thesis
    using ls lp by (simp add: c hc nth_append)
qed

lemma range_invariant_new: "range_invariant (range_new start stop step initial)"
  by (simp add: range_invariant_def range_new_def Lift_new_def StaticCommitHandler_new_def
      eval_nat_numeral)

lemma range_invariant_commit:
  assumes "range_invariant r"
    and "range_commit start stop step sequence r = Some (st, r')"
  shows "range_invariant r'"
proof (cases "sequence = m_previous_sequence r \<or> is_complete (m_state r)")
  case True
  with assms show ?thesis by (simp add: range_commit_def Lift_commit_def)
next
  case False
  with assms(1) have h: "length (h_children (m_handler r)) = 7"
    "\<not> is_complete (h_children (m_handler r) ! 6)"
    "sequence \<noteq> h_previous_sequence (m_handler r)"
    by (simp_all add: range_invariant_def)
  obtain h' a' where hc: "StaticCommitHandler_commit (range_children start stop step) sequence
      (m_handler r, m_arguments r) = (CONTINUE_EVALUATED, h', a')"
    and h': "length (h_children h') = 7" "h_children h' ! 6 = CONTINUE_EVALUATED"
      "h_previous_sequence h' = sequence"
    using range_handler_commit [OF h, of start stop step "m_arguments r"] by blast
  let ?r1 = "r\<lparr>m_handler := h', m_arguments := a', m_has_continuation := False\<rparr>"
  from False hc assms(2) obtain invocation r2 where
    inv: "Lift_invoke (FunctionEvaluator (range_call start stop step)) ?r1 = Some (invocation, r2)"
    and res: "r' = snd (Lift_commit_memoize sequence
      (Lift_commit_invocation CONTINUE_EVALUATED invocation r2))"
    by (auto simp add: range_commit_def Lift_commit_def split: option.splits)
  from inv have "m_handler r2 = h'"
    by (auto simp add: Lift_invoke_def split: prod.splits outcome.splits)
  then show ?thesis
    using h'
    by (simp add: res range_invariant_def Lift_commit_memoize_def Lift_commit_invocation_def
        Let_def)
qed


section \<open>range: the candidate has reached the stop value\<close>

lemma range_call_at_stop:
  assumes "range_candidate value (try_call (reactor_eval start (start_reactor a)))
      (try_call (reactor_eval step (step_reactor a))) = Inr c"
    and "reactor_eval stop (stop_reactor a) = Inr stop_value"
    and "c \<ge> stop_value"
  shows "range_call start stop step value a =
    (Returned \<lparr>fe_value = None,
       fe_state = (if is_complete (start_updates a) \<and> is_complete (stop_updates a)
         then COMPLETE else NONE)\<rparr>, value)"
  using assms by (simp add: range_call_def range_function_def FunctionEvaluation_State_def)

text \<open>
  C7. On a commit of a \<open>range\<close> reactor that is not answered from the memo, let \<open>a\<close> be
  the arguments after the handler has committed them. If the candidate \<open>c\<close> (the value of
  start if no value exists yet, else the maximum of start and the previous value plus
  step) is at least the value of stop, the commit produces no value and leaves the value
  slot and the stored current value as they are. If the latest states of start and stop
  are both complete, the returned state is complete without evaluation (\<open>COMPLETE\<close>, or
  \<open>COMPLETE_EMPTY\<close> if the reactor never evaluated); otherwise the result of the lifted
  function is \<open>NONE\<close> and the commit returns \<open>CONTINUE\<close>: not complete, no evaluation, and
  the continuation bit, which comes from the \<open>perpetual()\<close> child.
\<close>

theorem range_at_stop:
  assumes "range_invariant r"
    and "sequence \<noteq> m_previous_sequence r" and "\<not> is_complete (m_state r)"
    and "a = snd (snd (StaticCommitHandler_commit (range_children start stop step) sequence
      (m_handler r, m_arguments r)))"
    and "range_candidate (m_function r) (try_call (reactor_eval start (start_reactor a)))
      (try_call (reactor_eval step (step_reactor a))) = Inr c"
    and "reactor_eval stop (stop_reactor a) = Inr stop_value"
    and "c \<ge> stop_value"
  shows "\<exists>r'. range_commit start stop step sequence r =
      Some (if is_complete (start_updates a) \<and> is_complete (stop_updates a)
        then (if m_had_evaluation r then COMPLETE else COMPLETE_EMPTY)
        else CONTINUE, r') \<and>
    m_value r' = m_value r \<and> m_function r' = m_function r \<and> range_invariant r'"
proof -
  from assms(1,2) have h: "length (h_children (m_handler r)) = 7"
    "\<not> is_complete (h_children (m_handler r) ! 6)"
    "sequence \<noteq> h_previous_sequence (m_handler r)"
    by (simp_all add: range_invariant_def)
  obtain h' a' where hc: "StaticCommitHandler_commit (range_children start stop step) sequence
      (m_handler r, m_arguments r) = (CONTINUE_EVALUATED, h', a')"
    and h': "length (h_children h') = 7" "h_children h' ! 6 = CONTINUE_EVALUATED"
      "h_previous_sequence h' = sequence"
    using range_handler_commit [OF h, of start stop step "m_arguments r"] by blast
  from hc assms(4) have a: "a' = a" by simp
  let ?r1 = "r\<lparr>m_handler := h', m_arguments := a, m_has_continuation := False\<rparr>"
  let ?state = "if is_complete (start_updates a) \<and> is_complete (stop_updates a)
    then COMPLETE else NONE"
  have call: "range_call start stop step (m_function ?r1) (m_arguments ?r1) =
      (Returned \<lparr>fe_value = None, fe_state = ?state\<rparr>, m_function r)"
    using range_call_at_stop [OF assms(5-7)] by simp
  have inv: "Lift_invoke (FunctionEvaluator (range_call start stop step)) ?r1 =
      Some (?state, ?r1)"
    using call by (simp add: Lift_invoke_def FunctionEvaluator_def)
  have "Lift_commit (FunctionEvaluator (range_call start stop step))
      (StaticCommitHandler_commit (range_children start stop step)) sequence r =
    Some (Lift_commit_memoize sequence (Lift_commit_invocation CONTINUE_EVALUATED ?state ?r1))"
    using assms(2,3) hc by (simp add: Lift_commit_invoked a inv)
  then show ?thesis
    using h'
    by (auto simp add: range_commit_def Lift_commit_memoize_def Lift_commit_invocation_def
        Let_def range_invariant_def)
qed

lemmas range_evaluation =
  range_commit_def range_new_def range_children_def range_call_def range_function_def
  range_candidate_def Lift_commit_def Lift_invoke_def FunctionEvaluator_def Lift_new_def
  Lift_commit_memoize_def Lift_commit_invocation_def StaticCommitHandler_commit_def
  StaticCommitHandler_new_def aggregate_def Constant_def Perpetual_def StateReactor_def
  Scripted_def Scripted_new_def
  FunctionEvaluation_Type_def FunctionEvaluation_Maybe_def FunctionEvaluation_Type_State_def
  FunctionEvaluation_Maybe_State_def FunctionEvaluation_State_def Let_def

text \<open>
  The theorem at the first commit of \<open>range(constant(0), stop, constant(1))\<close>, where \<open>stop\<close>
  reports \<open>EVALUATED\<close> with the value 0 and is not complete: the candidate 0 has reached
  the stop value, and the commit returns \<open>CONTINUE\<close>.
\<close>

theorem range_at_stop_witness:
  "\<exists>r'. range_commit Constant Scripted Constant 0
      (range_new (0::int) (Scripted_new [(EVALUATED, Inr 0)]) 1 (Value (0::int))) =
      Some (CONTINUE, r') \<and>
    m_value r' = Value (0::int) \<and> m_function r' = None \<and> range_invariant r'"
proof -
  let ?r = "range_new (0::int) (Scripted_new [(EVALUATED, Inr (0::int))]) (1::int) (Value (0::int))"
  let ?a = "snd (snd (StaticCommitHandler_commit
      (range_children Constant Scripted Constant) 0 (m_handler ?r, m_arguments ?r)))"
  have fresh: "0 \<noteq> m_previous_sequence ?r" "\<not> is_complete (m_state ?r)"
    by (simp_all add: range_new_def Lift_new_def)
  have candidate: "range_candidate (m_function ?r)
      (try_call (reactor_eval Constant (start_reactor ?a)))
      (try_call (reactor_eval Constant (step_reactor ?a))) = Inr 0"
    by (simp add: range_evaluation eval_nat_numeral)
  have stop: "reactor_eval Scripted (stop_reactor ?a) = Inr 0"
    by (simp add: range_evaluation eval_nat_numeral)
  have states: "\<not> is_complete (stop_updates ?a)"
    by (simp add: range_evaluation eval_nat_numeral)
  have initially: "m_value ?r = Value (0::int)" "m_function ?r = None" "\<not> m_had_evaluation ?r"
    by (simp_all add: range_new_def Lift_new_def)
  from range_at_stop [OF range_invariant_new fresh refl candidate stop]
  show ?thesis using states initially by simp
qed

text \<open>
  The claim as stated fails at the same input: the candidate 0 is at least the stop value
  0 and stop is not complete, but the commit returns \<open>CONTINUE\<close>, which has the
  continuation bit, not \<open>NONE\<close>.
\<close>

theorem range_at_stop_counterexample:
  "range_candidate None (Value (0::int)) (Value 1) = Inr 0 \<and>
   reactor_eval Scripted (stop_reactor (snd (snd (StaticCommitHandler_commit
      (range_children Constant Scripted Constant) 0
      (m_handler (range_new (0::int) (Scripted_new [(EVALUATED, Inr 0)]) 1 (Value (0::int))),
       m_arguments (range_new (0::int) (Scripted_new [(EVALUATED, Inr 0)]) 1 (Value (0::int)))))))) =
     Inr (0::int) \<and>
   map_option fst (range_commit Constant Scripted Constant 0
      (range_new (0::int) (Scripted_new [(EVALUATED, Inr 0)]) 1 (Value (0::int)))) = Some CONTINUE \<and>
   CONTINUE \<noteq> NONE \<and> has_continuation CONTINUE"
  by (simp add: range_evaluation eval_nat_numeral)


section \<open>range over constants\<close>

text \<open>
  C6. The reactor \<open>range(Constant(0), Constant(3), Constant(1))\<close>, driven with three
  strictly increasing sequence numbers from 0 on, reports \<open>CONTINUE_EVALUATED\<close> with the
  value 0, \<open>CONTINUE_EVALUATED\<close> with the value 1 and \<open>COMPLETE_EVALUATED\<close> with the value
  2. Every later commit returns \<open>COMPLETE_EVALUATED\<close> from the memo and leaves the reactor
  as it is: the lifted function is not called again and \<open>eval\<close> stays at 2.
\<close>

theorem range_constants:
  assumes "0 \<le> s0" and "s0 < s1" and "s1 < s2"
  shows "\<exists>r. drive (range_commit Constant Constant Constant) Lift_eval [s0, s1, s2]
      (range_new (0::int) 3 1 initial) =
      Some ([(CONTINUE_EVALUATED, Some (Inr 0)), (CONTINUE_EVALUATED, Some (Inr 1)),
        (COMPLETE_EVALUATED, Some (Inr 2))], r) \<and>
    (\<forall>s. range_commit Constant Constant Constant s r = Some (COMPLETE_EVALUATED, r)) \<and>
    Lift_eval r = Inr 2 \<and> m_function r = Some 2"
proof -
  let ?R = "\<lambda>f v st s.
    \<lparr>m_function = f,
     m_arguments = \<lparr>start_reactor = 0::int, start_updates = COMPLETE_EVALUATED,
       stop_reactor = 3::int, stop_updates = COMPLETE_EVALUATED, step_reactor = 1::int,
       step_updates = COMPLETE_EVALUATED\<rparr>,
     m_handler = \<lparr>h_children = [COMPLETE_EVALUATED, COMPLETE_EVALUATED, COMPLETE_EVALUATED,
         COMPLETE_EVALUATED, COMPLETE_EVALUATED, COMPLETE_EVALUATED, CONTINUE_EVALUATED],
       h_state = CONTINUE_EVALUATED, h_previous_sequence = s\<rparr>,
     m_value = v, m_state = st, m_previous_sequence = s, m_has_continuation = False,
     m_had_evaluation = True\<rparr>"
  have first: "range_commit Constant Constant Constant s0 (range_new (0::int) 3 1 initial) =
      Some (CONTINUE_EVALUATED, ?R (Some 0) (Value 0) CONTINUE_EVALUATED s0)"
    using assms(1) by (simp add: range_evaluation eval_nat_numeral)
  have second: "range_commit Constant Constant Constant s1
      (?R (Some 0) (Value 0) CONTINUE_EVALUATED s0) =
      Some (CONTINUE_EVALUATED, ?R (Some 1) (Value 1) CONTINUE_EVALUATED s1)"
    using assms(2) by (simp add: range_evaluation eval_nat_numeral)
  have third: "range_commit Constant Constant Constant s2
      (?R (Some 1) (Value 1) CONTINUE_EVALUATED s1) =
      Some (COMPLETE_EVALUATED, ?R (Some 2) (Value 2) COMPLETE_EVALUATED s2)"
    using assms(3) by (simp add: range_evaluation eval_nat_numeral)
  have later: "\<forall>s. range_commit Constant Constant Constant s
      (?R (Some 2) (Value 2) COMPLETE_EVALUATED s2) =
      Some (COMPLETE_EVALUATED, ?R (Some 2) (Value 2) COMPLETE_EVALUATED s2)"
    by (simp add: range_commit_def Lift_commit_def)
  have run: "drive (range_commit Constant Constant Constant) Lift_eval [s0, s1, s2]
      (range_new (0::int) 3 1 initial) =
      Some ([(CONTINUE_EVALUATED, Some (Inr 0)), (CONTINUE_EVALUATED, Some (Inr 1)),
        (COMPLETE_EVALUATED, Some (Inr 2))], ?R (Some 2) (Value 2) COMPLETE_EVALUATED s2)"
    by (simp add: first second third Lift_eval_def)
  have "Lift_eval (?R (Some 2) (Value 2) COMPLETE_EVALUATED s2) = Inr 2"
    by (simp add: Lift_eval_def)
  with run later show ?thesis by auto
qed

theorem range_constants_witness:
  "\<exists>r. drive (range_commit Constant Constant Constant) Lift_eval [0, 1, 2]
      (range_new (0::int) 3 1 (Value 0)) =
      Some ([(CONTINUE_EVALUATED, Some (Inr 0)), (CONTINUE_EVALUATED, Some (Inr 1)),
        (COMPLETE_EVALUATED, Some (Inr 2))], r) \<and>
    (\<forall>s. range_commit Constant Constant Constant s r = Some (COMPLETE_EVALUATED, r)) \<and>
    Lift_eval r = Inr 2 \<and> m_function r = Some 2"
  using range_constants [of 0 1 2 "Value 0"] by simp


end
